theory Spec2Isabelle
  imports Complex_Main
begin

section \<open>Data model (shared/schema.ts)\<close>

text \<open>
  The job orchestrator of the short-video generator: \<^verbatim>\<open>server/videoWorker.ts\<close> (the
  current copy, with ETA tracking and audio-duration reconciliation), the integrity
  verifier of \<^verbatim>\<open>server/videoRenderer.ts\<close>, the cancel route of \<^verbatim>\<open>server/routes.ts\<close> and
  the storage layer they call.  Numbers of the source are JavaScript doubles; they are
  modelled by rationals (and by integers where the column is an integer), timestamps by
  milliseconds as naturals.
\<close>

datatype JobStatus =
  J_queued | J_running | J_generating_script | J_generating_assets
  | J_rendering_video | J_generating_caption | J_completed | J_failed

datatype StepStatus = S_queued | S_running | S_completed | S_failed

text \<open>The five stage identities that \<^verbatim>\<open>initializeJobSteps\<close> writes, in pipeline order.\<close>

datatype StepType = T_script | T_assets_visual | T_assets_audio | T_video | T_caption

record Scene =
  scene_id :: string
  scene_index :: nat
  startTime :: rat
  endTime :: rat
  textOverlay :: "string option"
  voiceSegmentText :: "string option"
  backgroundPrompt :: "string option"
  backgroundAssetUrl :: "string option"
  audioAssetUrl :: "string option"
  audioDurationSeconds :: "rat option"

text \<open>The parts of \<^verbatim>\<open>JobSettings\<close> that the worker reads itself; the generators receive
  the whole record.\<close>

record JobSettings =
  settings_contentType :: string
  targetDurationSeconds :: nat
  visual_stylePrompt :: "string option"
  visual_scenesPerMinute :: "nat option"
  audio_voiceModel :: "string option"
  subtitles_enabled :: bool

record Job =
  title :: string
  status :: JobStatus
  contentType :: string
  settings :: JobSettings
  scriptText :: "string option"
  scenes :: "Scene list option"
  caption :: "string option"
  hashtags :: "string list option"
  videoUrl :: "string option"
  audioUrl :: "string option"
  subtitlesUrl :: "string option"
  thumbnailUrl :: "string option"
  durationSeconds :: "rat option"
  progressPercent :: int
  etaSeconds :: "int option"
  errorMessage :: "string option"
  lockedBy :: "string option"
  lockedAt :: "nat option"
  leaseExpiresAt :: "nat option"
  lastProgressAt :: "nat option"
  cancelRequested :: bool
  createdAt :: nat
  updatedAt :: nat

record JobStep =
  step_id :: string
  step_jobId :: string
  stepType :: StepType
  step_status :: StepStatus
  message :: "string option"
  startedAt :: "nat option"
  finishedAt :: "nat option"
  durationMs :: "nat option"

datatype AssetMeta =
  ImageMeta nat string string
  | AudioMeta nat string string
  | VideoMeta rat
  | ThumbnailMeta

record Asset =
  asset_jobId :: string
  assetType :: string
  url :: string
  metadata :: AssetMeta

text \<open>The value kept under a \<^verbatim>\<open>step_avg_...\<close> key of the settings table.\<close>

record StepAvg =
  avgMs :: rat
  avg_count :: nat

section \<open>Observable events and the world\<close>

text \<open>
  Every call that leaves the process is named, so that a run can be asked which calls it
  made.  \<^verbatim>\<open>GenerateImage i\<close> is the image request of scene \<open>i\<close>, \<^verbatim>\<open>ProbeAudio p k\<close>
  the \<open>k\<close>-th ffprobe attempt on the file at path \<open>p\<close>.
\<close>

datatype ExtCall =
  GenerateScript
  | GenerateImagePrompt nat
  | GenerateImage nat
  | UploadImage nat
  | GenerateSpeech nat
  | UploadAudio nat
  | DownloadAudio nat
  | ProbeAudio string nat
  | RenderVideo
  | GenerateCaption

fun stage_of :: "ExtCall \<Rightarrow> StepType" where
  "stage_of GenerateScript = T_script"
| "stage_of (GenerateImagePrompt i) = T_assets_visual"
| "stage_of (GenerateImage i) = T_assets_visual"
| "stage_of (UploadImage i) = T_assets_visual"
| "stage_of (GenerateSpeech i) = T_assets_audio"
| "stage_of (UploadAudio i) = T_assets_audio"
| "stage_of (DownloadAudio i) = T_assets_audio"
| "stage_of (ProbeAudio path k) = T_assets_audio"
| "stage_of RenderVideo = T_video"
| "stage_of GenerateCaption = T_caption"

text \<open>
  The trace is an observer's log, not program state: an external call started, a stage
  function invoked by \<^verbatim>\<open>runStep\<close>, a poll of the cancellation flag with its answer, and
  a write of \<^verbatim>\<open>progressPercent\<close> that reached the job's row.
\<close>

datatype Event =
  Ext ExtCall
  | Invoke StepType
  | Poll bool
  | ProgressWrite int

record World =
  jobs :: "string \<Rightarrow> Job option"
  jobSteps :: "JobStep list"
  assets :: "Asset list"
  settingsTable :: "string \<Rightarrow> StepAvg option"
  clock :: nat
  trace :: "Event list"

section \<open>Storage layer (server/storage.ts)\<close>

text \<open>
  \<^verbatim>\<open>Partial<Job>\<close>: the columns an update may carry.  \<open>None\<close> leaves the column alone; for
  a nullable column \<open>Some None\<close> writes \<^verbatim>\<open>null\<close>.
\<close>

record JobPatch =
  p_status :: "JobStatus option"
  p_progressPercent :: "int option"
  p_etaSeconds :: "int option option"
  p_scriptText :: "string option"
  p_scenes :: "Scene list option"
  p_caption :: "string option"
  p_hashtags :: "string list option"
  p_videoUrl :: "string option"
  p_thumbnailUrl :: "string option"
  p_durationSeconds :: "rat option"
  p_errorMessage :: "string option"
  p_cancelRequested :: "bool option"
  p_lockedBy :: "string option option"
  p_lockedAt :: "nat option option"
  p_leaseExpiresAt :: "nat option option"

definition noPatch :: JobPatch where
  "noPatch = \<lparr> p_status = None, p_progressPercent = None, p_etaSeconds = None,
     p_scriptText = None, p_scenes = None, p_caption = None, p_hashtags = None,
     p_videoUrl = None, p_thumbnailUrl = None, p_durationSeconds = None,
     p_errorMessage = None, p_cancelRequested = None, p_lockedBy = None,
     p_lockedAt = None, p_leaseExpiresAt = None \<rparr>"

definition orElse :: "'a option \<Rightarrow> 'a \<Rightarrow> 'a" where
  "orElse x d = (case x of None \<Rightarrow> d | Some v \<Rightarrow> v)"

definition orKeep :: "'a option \<Rightarrow> 'a option \<Rightarrow> 'a option" where
  "orKeep x old = (case x of None \<Rightarrow> old | Some v \<Rightarrow> Some v)"

definition applyPatch :: "JobPatch \<Rightarrow> Job \<Rightarrow> Job" where
  "applyPatch p j = j\<lparr>
     status := orElse (p_status p) (status j),
     progressPercent := orElse (p_progressPercent p) (progressPercent j),
     etaSeconds := orElse (p_etaSeconds p) (etaSeconds j),
     scriptText := orKeep (p_scriptText p) (scriptText j),
     scenes := orKeep (p_scenes p) (scenes j),
     caption := orKeep (p_caption p) (caption j),
     hashtags := orKeep (p_hashtags p) (hashtags j),
     videoUrl := orKeep (p_videoUrl p) (videoUrl j),
     thumbnailUrl := orKeep (p_thumbnailUrl p) (thumbnailUrl j),
     durationSeconds := orKeep (p_durationSeconds p) (durationSeconds j),
     errorMessage := orKeep (p_errorMessage p) (errorMessage j),
     cancelRequested := orElse (p_cancelRequested p) (cancelRequested j),
     lockedBy := orElse (p_lockedBy p) (lockedBy j),
     lockedAt := orElse (p_lockedAt p) (lockedAt j),
     leaseExpiresAt := orElse (p_leaseExpiresAt p) (leaseExpiresAt j) \<rparr>"

text \<open>\<^verbatim>\<open>getJobSteps\<close>: the step rows of one job, in table order.\<close>

definition getJobSteps :: "string \<Rightarrow> World \<Rightarrow> JobStep list" where
  "getJobSteps jobId w = filter (\<lambda>s. step_jobId s = jobId) (jobSteps w)"

definition getAssets :: "string \<Rightarrow> World \<Rightarrow> Asset list" where
  "getAssets jobId w = filter (\<lambda>a. asset_jobId a = jobId) (assets w)"

text \<open>\<^verbatim>\<open>getJob\<close>: the row together with its steps, or nothing when the id is unknown.\<close>

definition getJob :: "string \<Rightarrow> World \<Rightarrow> (Job \<times> JobStep list) option" where
  "getJob jobId w =
     (case jobs w jobId of
        None \<Rightarrow> None
      | Some j \<Rightarrow> Some (j, getJobSteps jobId w))"

text \<open>
  \<^verbatim>\<open>updateJob\<close>: \<^verbatim>\<open>.set({ ...updates, updatedAt: new Date() })\<close> on the row with that id.
  No row, no effect.  A write that carries \<^verbatim>\<open>progressPercent\<close> is logged.
\<close>

definition updateJob :: "string \<Rightarrow> JobPatch \<Rightarrow> World \<Rightarrow> World" where
  "updateJob jobId p w =
     (case jobs w jobId of
        None \<Rightarrow> w
      | Some j \<Rightarrow>
          w\<lparr> jobs := (jobs w)(jobId := Some ((applyPatch p j)\<lparr> updatedAt := clock w \<rparr>)),
             trace := trace w @ (case p_progressPercent p of
                                    None \<Rightarrow> []
                                  | Some n \<Rightarrow> [ProgressWrite n]) \<rparr>)"

text \<open>\<^verbatim>\<open>updateJobStep\<close>: the update is applied to the rows with that primary key.\<close>

definition updateJobStep :: "string \<Rightarrow> (JobStep \<Rightarrow> JobStep) \<Rightarrow> World \<Rightarrow> World" where
  "updateJobStep sid f w =
     w\<lparr> jobSteps := map (\<lambda>s. if step_id s = sid then f s else s) (jobSteps w) \<rparr>"

definition createAsset :: "Asset \<Rightarrow> World \<Rightarrow> World" where
  "createAsset a w = w\<lparr> assets := assets w @ [a] \<rparr>"

definition getSetting :: "string \<Rightarrow> World \<Rightarrow> StepAvg option" where
  "getSetting key w = settingsTable w key"

definition setSetting :: "string \<Rightarrow> StepAvg \<Rightarrow> World \<Rightarrow> World" where
  "setSetting key v w = w\<lparr> settingsTable := (settingsTable w)(key := Some v) \<rparr>"

subsection \<open>Lease operations\<close>

text \<open>
  Modelled from the spec: \<^verbatim>\<open>acquireJobLock\<close>, \<^verbatim>\<open>releaseJobLock\<close>, \<^verbatim>\<open>updateLastProgress\<close>
  and \<^verbatim>\<open>getAssetByPath\<close> are called by the worker, but the copy of the storage layer in
  the repository's files predates them.  The spec's contract (section 4.2):
  acquire succeeds only if no lease exists or the existing lease has expired, and sets
  \<^verbatim>\<open>lockedBy\<close>, \<^verbatim>\<open>lockedAt\<close>, \<^verbatim>\<open>leaseExpiresAt = now + ttl\<close> in one step; release clears the
  lease unconditionally.  A lease has expired when its expiry lies before now, the test
  \<^verbatim>\<open>resumeJobsOnStartup\<close> applies.
\<close>

definition leaseExpired :: "nat \<Rightarrow> Job \<Rightarrow> bool" where
  "leaseExpired now j = (case leaseExpiresAt j of None \<Rightarrow> False | Some t \<Rightarrow> t < now)"

definition leaseFree :: "nat \<Rightarrow> Job \<Rightarrow> bool" where
  "leaseFree now j = (lockedBy j = None \<or> leaseExpired now j)"

definition acquireJobLock :: "string \<Rightarrow> string \<Rightarrow> nat \<Rightarrow> World \<Rightarrow> bool \<times> World" where
  "acquireJobLock jobId ownerId ttl w =
     (case jobs w jobId of
        None \<Rightarrow> (False, w)
      | Some j \<Rightarrow>
          if leaseFree (clock w) j
          then (True, w\<lparr> jobs := (jobs w)(jobId := Some (j\<lparr>
                   lockedBy := Some ownerId,
                   lockedAt := Some (clock w),
                   leaseExpiresAt := Some (clock w + ttl * 1000) \<rparr>)) \<rparr>)
          else (False, w))"

definition releaseJobLock :: "string \<Rightarrow> string \<Rightarrow> World \<Rightarrow> World" where
  "releaseJobLock jobId ownerId w =
     (case jobs w jobId of
        None \<Rightarrow> w
      | Some j \<Rightarrow>
          w\<lparr> jobs := (jobs w)(jobId := Some (j\<lparr>
               lockedBy := None, lockedAt := None, leaseExpiresAt := None \<rparr>)) \<rparr>)"

definition updateLastProgress :: "string \<Rightarrow> World \<Rightarrow> World" where
  "updateLastProgress jobId w =
     (case jobs w jobId of
        None \<Rightarrow> w
      | Some j \<Rightarrow> w\<lparr> jobs := (jobs w)(jobId := Some (j\<lparr> lastProgressAt := Some (clock w) \<rparr>)) \<rparr>)"

definition getAssetByPath :: "string \<Rightarrow> string \<Rightarrow> World \<Rightarrow> Asset option" where
  "getAssetByPath jobId path w = find (\<lambda>a. url a = path) (getAssets jobId w)"

section \<open>Cancel route (server/routes.ts)\<close>

datatype HttpResponse = HttpResponse nat string

text \<open>\<^verbatim>\<open>POST /api/jobs/:id/cancel\<close>.\<close>

definition cancelJob :: "string \<Rightarrow> World \<Rightarrow> HttpResponse \<times> World" where
  "cancelJob jobId w =
     (case getJob jobId w of
        None \<Rightarrow> (HttpResponse 404 ''Job not found'', w)
      | Some (job, steps) \<Rightarrow>
          if status job = J_completed \<or> status job = J_failed
          then (HttpResponse 400 ''Cannot cancel completed or failed job'', w)
          else (HttpResponse 200 ''Cancel requested'',
                updateJob jobId (noPatch\<lparr> p_cancelRequested := Some True \<rparr>) w))"

section \<open>JavaScript values\<close>

text \<open>A double that may be \<^verbatim>\<open>NaN\<close>, as \<^verbatim>\<open>parseFloat\<close> returns it.  Every comparison with
  \<^verbatim>\<open>NaN\<close> is false.\<close>

datatype JsNumber = NaN | Num rat

definition js_le0 :: "JsNumber \<Rightarrow> bool" where
  "js_le0 x = (case x of NaN \<Rightarrow> False | Num r \<Rightarrow> r \<le> 0)"

text \<open>\<^verbatim>\<open>Math.round\<close>: the nearest integer, halves upwards.\<close>

definition js_round :: "rat \<Rightarrow> int" where
  "js_round x = \<lfloor>x + 1 / 2\<rfloor>"

text \<open>Truthiness of an optional string: defined and not empty.\<close>

definition truthy :: "string option \<Rightarrow> bool" where
  "truthy x = (case x of None \<Rightarrow> False | Some s \<Rightarrow> s \<noteq> [])"

definition isWhitespace :: "char \<Rightarrow> bool" where
  "isWhitespace c = (c \<in> set [CHR '' '', CHR 0x09, CHR 0x0A, CHR 0x0B, CHR 0x0C, CHR 0x0D])"

text \<open>\<^verbatim>\<open>text.trim()\<close> is truthy when some character is not white space.\<close>

definition trimTruthy :: "string \<Rightarrow> bool" where
  "trimTruthy s = list_ex (\<lambda>c. \<not> isWhitespace c) s"

text \<open>Decimal digits of a number, for template strings.\<close>

fun showNat :: "nat \<Rightarrow> string" where
  "showNat n =
     (if n < 10 then [char_of (48 + n)]
      else showNat (n div 10) @ [char_of (48 + n mod 10)])"

declare showNat.simps [simp del]

section \<open>Integrity verifier (server/videoRenderer.ts)\<close>

record ProbeStream =
  codec_type :: string
  stream_width :: "nat option"
  stream_height :: "nat option"

text \<open>What \<^verbatim>\<open>JSON.parse(stdout)\<close> yields: \<open>probe_duration\<close> is
  \<^verbatim>\<open>parseFloat(data.format?.duration || '0')\<close>, \<open>probe_streams\<close> is \<^verbatim>\<open>data.streams || []\<close>.\<close>

record ProbeData =
  probe_duration :: JsNumber
  probe_streams :: "ProbeStream list"

text \<open>How the ffprobe process ends: it cannot be spawned, or it closes with an exit code,
  its stderr, and a stdout that parses (\<open>Some\<close>) or does not (\<open>None\<close>).\<close>

datatype FfprobeResult =
  ProbeSpawnError string
  | ProbeExit int string "ProbeData option"

record IntegrityCheck =
  valid :: bool
  ic_error :: "string option"
  ic_duration :: "JsNumber option"
  hasAudio :: "bool option"
  ic_width :: "nat option"
  ic_height :: "nat option"

definition invalidCheck :: "string \<Rightarrow> IntegrityCheck" where
  "invalidCheck msg = \<lparr> valid = False, ic_error = Some msg, ic_duration = None,
     hasAudio = None, ic_width = None, ic_height = None \<rparr>"

text \<open>\<^verbatim>\<open>checkVideoIntegrity\<close>, on what ffprobe reports and on the size \<^verbatim>\<open>fs.stat\<close> gives
  (\<open>None\<close> when it rejects).\<close>

definition checkVideoIntegrity :: "FfprobeResult \<Rightarrow> nat option \<Rightarrow> IntegrityCheck" where
  "checkVideoIntegrity probe stat =
     (case probe of
        ProbeSpawnError msg \<Rightarrow> invalidCheck (''ffprobe error: '' @ msg)
      | ProbeExit code stderr parsed \<Rightarrow>
          if code \<noteq> 0 then invalidCheck (''ffprobe failed: '' @ take 200 stderr)
          else
            (case parsed of
               None \<Rightarrow> invalidCheck ''Failed to parse ffprobe output''
             | Some data \<Rightarrow>
                 let duration = probe_duration data;
                     streams = probe_streams data;
                     audio = list_ex (\<lambda>s. codec_type s = ''audio'') streams;
                     videoStream = find (\<lambda>s. codec_type s = ''video'') streams
                 in if js_le0 duration then invalidCheck ''No duration detected''
                    else
                      (case stat of
                         None \<Rightarrow> invalidCheck ''Cannot stat file''
                       | Some bytes \<Rightarrow>
                           if bytes < 10000 then invalidCheck ''File too small''
                           else \<lparr> valid = True, ic_error = None,
                                  ic_duration = Some duration,
                                  hasAudio = Some audio,
                                  ic_width = Option.bind videoStream stream_width,
                                  ic_height = Option.bind videoStream stream_height \<rparr>)))"

section \<open>External services\<close>

text \<open>What the encoder pipeline of \<^verbatim>\<open>renderVideo\<close> leaves behind when every ffmpeg
  invocation exits with code 0 and both uploads succeed.\<close>

record RenderIO =
  out_videoUrl :: string
  out_thumbnailUrl :: string
  out_probe :: FfprobeResult
  out_stat :: "nat option"

text \<open>
  The collaborators of the worker, as parameters.  Each generator answers with a value or
  with the message of the error it throws (\<open>Inl\<close>).  \<open>renderPipeline\<close> stands for the
  downloads, ffmpeg invocations and uploads of \<^verbatim>\<open>renderVideo\<close>: \<open>Inl\<close> when one of them
  fails (a non-zero exit code rejects), \<open>Inr\<close> otherwise.  \<open>latency\<close> is the time a call
  takes; \<open>cancelArrives c = Some id\<close> says that a cancel request for job \<open>id\<close> is served
  while the worker awaits call \<open>c\<close>.
\<close>

record Env =
  workerId :: string
  latency :: "ExtCall \<Rightarrow> nat"
  cancelArrives :: "ExtCall \<Rightarrow> string option"
  generateHash :: "string \<Rightarrow> string"
  generateScript :: "JobSettings \<Rightarrow> string + (string \<times> Scene list)"
  generateImagePrompt :: "Scene \<Rightarrow> string option \<Rightarrow> string \<Rightarrow> string + string"
  generateImage :: "string \<Rightarrow> string + string"
  uploadBuffer :: "string \<Rightarrow> string \<Rightarrow> string \<Rightarrow> string + string"
  generateSpeech :: "string \<Rightarrow> string \<Rightarrow> string + string"
  downloadAudio :: "string \<Rightarrow> string + string"
  ffprobeDuration :: "string \<Rightarrow> nat \<Rightarrow> string + JsNumber"
  renderPipeline :: "string \<Rightarrow> Scene list \<Rightarrow> string + RenderIO"
  generateCaptionAndHashtags :: "string \<Rightarrow> string \<Rightarrow> string + (string \<times> string list)"

text \<open>Awaiting an external call: it is logged, time passes, and a cancel request may be
  served meanwhile.\<close>

definition external :: "Env \<Rightarrow> ExtCall \<Rightarrow> World \<Rightarrow> World" where
  "external env c w =
     (let w1 = w\<lparr> clock := clock w + latency env c, trace := trace w @ [Ext c] \<rparr>
      in case cancelArrives env c of
           None \<Rightarrow> w1
         | Some jobId \<Rightarrow> snd (cancelJob jobId w1))"

text \<open>A computation that may throw: the error message or the value, and the world it
  leaves (writes made before a throw stay).\<close>

type_synonym 'a io = "World \<Rightarrow> (string + 'a) \<times> World"

definition andThen :: "'a io \<Rightarrow> ('a \<Rightarrow> 'b io) \<Rightarrow> 'b io" where
  "andThen m f w = (case m w of (Inl e, w1) \<Rightarrow> (Inl e, w1) | (Inr x, w1) \<Rightarrow> f x w1)"

section \<open>Renderer (server/videoRenderer.ts)\<close>

text \<open>\<^verbatim>\<open>scene.audioDurationSeconds || 5\<close>.\<close>

definition durationOr5 :: "Scene \<Rightarrow> rat" where
  "durationOr5 s =
     (case audioDurationSeconds s of None \<Rightarrow> 5 | Some d \<Rightarrow> if d = 0 then 5 else d)"

definition sceneDurations :: "Scene list \<Rightarrow> rat list" where
  "sceneDurations scs = map durationOr5 scs"

text \<open>\<^verbatim>\<open>sceneDurations.reduce((sum, d) => sum + d, 0)\<close>.\<close>

definition totalDuration :: "Scene list \<Rightarrow> rat" where
  "totalDuration scs = foldl (+) 0 (sceneDurations scs)"

record RenderResult =
  r_videoUrl :: string
  r_thumbnailUrl :: string
  r_durationSeconds :: rat
  integrityCheck :: IntegrityCheck

definition renderVideo :: "Env \<Rightarrow> string \<Rightarrow> Scene list \<Rightarrow> RenderResult io" where
  "renderVideo env jobId scs w =
     (let w1 = external env RenderVideo w
      in case renderPipeline env jobId scs of
           Inl e \<Rightarrow> (Inl e, w1)
         | Inr out \<Rightarrow>
             (Inr \<lparr> r_videoUrl = out_videoUrl out,
                    r_thumbnailUrl = out_thumbnailUrl out,
                    r_durationSeconds = totalDuration scs,
                    integrityCheck = checkVideoIntegrity (out_probe out) (out_stat out) \<rparr>, w1))"

text \<open>\<^verbatim>\<open>getAudioDuration(audioPath, retries = 3)\<close>: up to \<open>retries\<close> ffprobe attempts, a
  pause of \<open>500 * attempt\<close> ms between them; an attempt succeeds only with a positive
  duration.\<close>

function getAudioDurationFrom :: "Env \<Rightarrow> string \<Rightarrow> nat \<Rightarrow> nat \<Rightarrow> rat io" where
  "getAudioDurationFrom env audioPath retries attempt w =
     (if attempt \<le> retries then
        (let w1 = external env (ProbeAudio audioPath attempt) w;
             outcome = (case ffprobeDuration env audioPath attempt of
                          Inl e \<Rightarrow> Inl e
                        | Inr NaN \<Rightarrow> Inl ''Invalid duration: 0 or negative''
                        | Inr (Num d) \<Rightarrow> if 0 < d then Inr d
                                         else Inl ''Invalid duration: 0 or negative'')
         in case outcome of
              Inr d \<Rightarrow> (Inr d, w1)
            | Inl e \<Rightarrow>
                if attempt = retries
                then (Inl (''Failed to detect audio duration after '' @ showNat retries
                           @ '' attempts: Error: '' @ e), w1)
                else getAudioDurationFrom env audioPath retries (attempt + 1)
                       (w1\<lparr> clock := clock w1 + 500 * attempt \<rparr>))
      else (Inl ''Audio duration detection failed'', w))"
  by pat_completeness auto
termination
  by (relation "measure (\<lambda>(env, audioPath, retries, attempt, w). Suc retries - attempt)") auto

declare getAudioDurationFrom.simps [simp del]

definition getAudioDuration :: "Env \<Rightarrow> string \<Rightarrow> rat io" where
  "getAudioDuration env audioPath = getAudioDurationFrom env audioPath 3 1"

section \<open>Worker (server/videoWorker.ts)\<close>

definition LEASE_SECONDS :: nat where
  "LEASE_SECONDS = 120"

fun STEP_WEIGHTS :: "StepType \<Rightarrow> int" where
  "STEP_WEIGHTS T_script = 10"
| "STEP_WEIGHTS T_assets_visual = 30"
| "STEP_WEIGHTS T_assets_audio = 15"
| "STEP_WEIGHTS T_video = 40"
| "STEP_WEIGHTS T_caption = 5"

fun STEP_TIME_ESTIMATES :: "StepType \<Rightarrow> int" where
  "STEP_TIME_ESTIMATES T_script = 10"
| "STEP_TIME_ESTIMATES T_assets_visual = 45"
| "STEP_TIME_ESTIMATES T_assets_audio = 5"
| "STEP_TIME_ESTIMATES T_video = 90"
| "STEP_TIME_ESTIMATES T_caption = 5"

fun stepTypeName :: "StepType \<Rightarrow> string" where
  "stepTypeName T_script = ''script''"
| "stepTypeName T_assets_visual = ''assets_visual''"
| "stepTypeName T_assets_audio = ''assets_audio''"
| "stepTypeName T_video = ''video''"
| "stepTypeName T_caption = ''caption''"

text \<open>The \<^verbatim>\<open>context\<close> object the stage closures of \<^verbatim>\<open>processJob\<close> share.\<close>

record JobContext =
  ctx_script :: "string option"
  ctx_scenes :: "Scene list option"

text \<open>\<^verbatim>\<open>calculateETA(startTime, progressPercent)\<close>, with \<open>now\<close> for \<^verbatim>\<open>Date.now()\<close>.\<close>

definition calculateETA :: "nat \<Rightarrow> nat \<Rightarrow> rat \<Rightarrow> int option" where
  "calculateETA startedMs now progress =
     (if progress \<le> 0 then None
      else
        let elapsed = (of_nat now - of_nat startedMs) / 1000
        in if elapsed < 1 / 10 then None
           else
             let rate = progress / elapsed
             in if rate \<le> 0 then None
                else Some (js_round ((100 - progress) / rate)))"

text \<open>\<^verbatim>\<open>isCancelled\<close>: a fresh read of the job's flag.\<close>

definition isCancelled :: "string \<Rightarrow> World \<Rightarrow> bool \<times> World" where
  "isCancelled jobId w =
     (let answer = (case getJob jobId w of
                      None \<Rightarrow> False
                    | Some (job, steps) \<Rightarrow> cancelRequested job)
      in (answer, w\<lparr> trace := trace w @ [Poll answer] \<rparr>))"

text \<open>\<^verbatim>\<open>if (await isCancelled(jobId)) throw new Error('Cancelled by user')\<close>.\<close>

definition throwIfCancelled :: "string \<Rightarrow> unit io" where
  "throwIfCancelled jobId w =
     (case isCancelled jobId w of
        (True, w1) \<Rightarrow> (Inl ''Cancelled by user'', w1)
      | (False, w1) \<Rightarrow> (Inr (), w1))"

definition saveStepTiming :: "string \<Rightarrow> StepType \<Rightarrow> nat \<Rightarrow> World \<Rightarrow> World" where
  "saveStepTiming ctype stepTy duration w =
     (let key = ''step_avg_'' @ ctype @ ''_'' @ stepTypeName stepTy
      in case getSetting key w of
           None \<Rightarrow> setSetting key \<lparr> avgMs = of_nat duration, avg_count = 1 \<rparr> w
         | Some d \<Rightarrow>
             let count = avg_count d + 1
             in setSetting key
                  \<lparr> avgMs = (avgMs d * of_nat (avg_count d) + of_nat duration) / of_nat count,
                    avg_count = count \<rparr> w)"

text \<open>
  \<^verbatim>\<open>runStep(jobId, stepType, fn)\<close>.  The stage closure works on the shared context, so
  \<open>fn\<close> takes the context and returns the one it leaves.
\<close>

definition runStep ::
  "string \<Rightarrow> StepType \<Rightarrow> (JobContext \<Rightarrow> JobContext io) \<Rightarrow> JobContext \<Rightarrow> JobContext io" where
  "runStep jobId stepTy fn ctx w =
     (case getJob jobId w of
        None \<Rightarrow> (Inr ctx, w)
      | Some (job, steps) \<Rightarrow>
          (case find (\<lambda>s. stepType s = stepTy) steps of
             None \<Rightarrow> (Inr ctx, w)
           | Some st \<Rightarrow>
               if step_status st = S_completed then (Inr ctx, w)
               else
                 let stepStart = clock w;
                     w1 = updateJobStep (step_id st)
                            (\<lambda>s. s\<lparr> step_status := S_running, startedAt := Some (clock w) \<rparr>) w;
                     w2 = w1\<lparr> trace := trace w1 @ [Invoke stepTy] \<rparr>
                 in case fn ctx w2 of
                      (Inr ctx', w3) \<Rightarrow>
                        let duration = clock w3 - stepStart;
                            w4 = updateJobStep (step_id st)
                                   (\<lambda>s. s\<lparr> step_status := S_completed,
                                            finishedAt := Some (clock w3),
                                            durationMs := Some duration \<rparr>) w3;
                            w5 = saveStepTiming (contentType job) stepTy duration w4
                        in (Inr ctx', w5)
                    | (Inl errorMsg, w3) \<Rightarrow>
                        (Inl errorMsg,
                         updateJobStep (step_id st)
                           (\<lambda>s. s\<lparr> step_status := S_failed,
                                    finishedAt := Some (clock w3),
                                    message := Some errorMsg \<rparr>) w3)))"

subsection \<open>Stage 1: script\<close>

definition scriptStage :: "Env \<Rightarrow> string \<Rightarrow> JobSettings \<Rightarrow> nat \<Rightarrow> JobContext \<Rightarrow> JobContext io" where
  "scriptStage env jobId st jobStartTime ctx w =
     (let w1 = external env GenerateScript w
      in case generateScript env st of
           Inl e \<Rightarrow> (Inl e, w1)
         | Inr (scriptTxt, scs) \<Rightarrow>
             let ctx' = ctx\<lparr> ctx_script := Some scriptTxt, ctx_scenes := Some scs \<rparr>;
                 eta = calculateETA jobStartTime (clock w1) (of_int (STEP_WEIGHTS T_script));
                 w2 = updateJob jobId (noPatch\<lparr>
                        p_status := Some J_generating_script,
                        p_scriptText := Some scriptTxt,
                        p_scenes := Some scs,
                        p_progressPercent := Some (STEP_WEIGHTS T_script),
                        p_etaSeconds := Some eta \<rparr>) w1;
                 w3 = updateLastProgress jobId w2
             in (Inr ctx', w3))"

text \<open>\<^verbatim>\<open>if (freshJob?.scenes) context.scenes = freshJob.scenes\<close>.\<close>

definition reloadScenes :: "string \<Rightarrow> JobContext \<Rightarrow> World \<Rightarrow> JobContext" where
  "reloadScenes jobId ctx w =
     (case getJob jobId w of
        None \<Rightarrow> ctx
      | Some (freshJob, steps) \<Rightarrow>
          (case scenes freshJob of
             None \<Rightarrow> ctx
           | Some scs \<Rightarrow> ctx\<lparr> ctx_scenes := Some scs \<rparr>))"

subsection \<open>Stage 2: visual assets\<close>

text \<open>The \<^verbatim>\<open>try { generateImage; uploadBuffer; createAsset } catch { url = '' }\<close> block: a
  failed generation or upload is logged and leaves the scene with an empty image URL.\<close>

definition tryGenerateImage ::
  "Env \<Rightarrow> string \<Rightarrow> nat \<Rightarrow> string \<Rightarrow> string \<Rightarrow> string \<Rightarrow> Scene list \<Rightarrow> World
     \<Rightarrow> Scene list \<times> World" where
  "tryGenerateImage env jobId i imagePrompt promptHash filename scs w =
     (let w1 = external env (GenerateImage i) w
      in case generateImage env imagePrompt of
           Inl err \<Rightarrow> (scs[i := (scs ! i)\<lparr> backgroundAssetUrl := Some [] \<rparr>], w1)
         | Inr imageBuffer \<Rightarrow>
             let w2 = external env (UploadImage i) w1
             in case uploadBuffer env imageBuffer ''image/png'' filename of
                  Inl err \<Rightarrow> (scs[i := (scs ! i)\<lparr> backgroundAssetUrl := Some [] \<rparr>], w2)
                | Inr imageUrl \<Rightarrow>
                    (scs[i := (scs ! i)\<lparr> backgroundAssetUrl := Some imageUrl \<rparr>],
                     createAsset \<lparr> asset_jobId = jobId, assetType = ''image'',
                                   url = imageUrl,
                                   metadata = ImageMeta i imagePrompt promptHash \<rparr> w2))"

text \<open>One iteration of the scene loop, for an index \<open>i\<close> below the length.\<close>

definition visualScene ::
  "Env \<Rightarrow> string \<Rightarrow> JobSettings \<Rightarrow> nat \<Rightarrow> nat \<Rightarrow> Scene list \<Rightarrow> Scene list io" where
  "visualScene env jobId st jobStartTime i updatedScenes =
     andThen (throwIfCancelled jobId) (\<lambda>u w.
       let scene = updatedScenes ! i
       in if truthy (backgroundAssetUrl scene) then (Inr updatedScenes, w)
          else
            let w1 = external env (GenerateImagePrompt i) w
            in case generateImagePrompt env scene (visual_stylePrompt st)
                      (settings_contentType st) of
                 Inl e \<Rightarrow> (Inl e, w1)
               | Inr imagePrompt \<Rightarrow>
                   let scs1 = updatedScenes[i := scene\<lparr> backgroundPrompt := Some imagePrompt \<rparr>];
                       promptHash = generateHash env (imagePrompt @ jobId @ showNat i);
                       filename = jobId @ ''/images/scene_'' @ showNat i @ ''_''
                                  @ promptHash @ ''.png'';
                       (scs2, w2) =
                         (case getAssetByPath jobId (''/objects/generated/'' @ filename) w1 of
                            Some existingAsset \<Rightarrow>
                              (scs1[i := (scs1 ! i)\<lparr>
                                 backgroundAssetUrl := Some (url existingAsset) \<rparr>], w1)
                          | None \<Rightarrow>
                              tryGenerateImage env jobId i imagePrompt promptHash filename
                                scs1 w1);
                       visualProgress = of_int (STEP_WEIGHTS T_script)
                         + (of_int (STEP_WEIGHTS T_assets_visual) * of_nat (i + 1))
                           / of_nat (length scs2);
                       eta = calculateETA jobStartTime (clock w2) visualProgress;
                       w3 = updateJob jobId (noPatch\<lparr>
                              p_progressPercent := Some (js_round visualProgress),
                              p_scenes := Some scs2,
                              p_etaSeconds := Some eta \<rparr>) w2;
                       w4 = updateLastProgress jobId w3
                   in (Inr scs2, w4))"

lemma length_tryGenerateImage:
  "tryGenerateImage env jobId i imagePrompt promptHash filename scs w = (scs', w')
   \<Longrightarrow> length scs' = length scs"
  by (auto simp: tryGenerateImage_def Let_def split: sum.splits)

lemma length_visualScene:
  "visualScene env jobId st t0 i scs w = (Inr scs', w') \<Longrightarrow> length scs' = length scs"
  by (auto simp: visualScene_def andThen_def Let_def
      split: sum.splits prod.splits option.splits if_splits
      dest: length_tryGenerateImage)

text \<open>\<^verbatim>\<open>for (let i = 0; i < updatedScenes.length; i++)\<close>, from index \<open>i\<close> on.\<close>

function visualLoop ::
  "Env \<Rightarrow> string \<Rightarrow> JobSettings \<Rightarrow> nat \<Rightarrow> nat \<Rightarrow> Scene list \<Rightarrow> Scene list io" where
  "visualLoop env jobId st jobStartTime i updatedScenes w =
     (if i < length updatedScenes then
        (case visualScene env jobId st jobStartTime i updatedScenes w of
           (Inl e, w1) \<Rightarrow> (Inl e, w1)
         | (Inr scs, w1) \<Rightarrow> visualLoop env jobId st jobStartTime (i + 1) scs w1)
      else (Inr updatedScenes, w))"
  by pat_completeness auto
termination
  by (relation "measure (\<lambda>(env, jobId, st, t0, i, scs, w). length scs - i)")
     (auto dest!: length_visualScene [OF sym])

declare visualLoop.simps [simp del]

definition visualStage ::
  "Env \<Rightarrow> string \<Rightarrow> JobSettings \<Rightarrow> nat \<Rightarrow> JobContext \<Rightarrow> JobContext io" where
  "visualStage env jobId st jobStartTime ctx w =
     (let w1 = updateJob jobId (noPatch\<lparr> p_status := Some J_generating_assets \<rparr>) w;
          ctx1 = reloadScenes jobId ctx w1
      in case ctx_scenes ctx1 of
           None \<Rightarrow> (Inr ctx1, w1)
         | Some scs \<Rightarrow>
             if 0 < length scs then
               (case visualLoop env jobId st jobStartTime 0 scs w1 of
                  (Inl e, w2) \<Rightarrow> (Inl e, w2)
                | (Inr updatedScenes, w2) \<Rightarrow>
                    (Inr (ctx1\<lparr> ctx_scenes := Some updatedScenes \<rparr>),
                     updateJob jobId (noPatch\<lparr> p_scenes := Some updatedScenes \<rparr>) w2))
             else (Inr ctx1, w1))"

subsection \<open>Stage 3: audio assets and scene timings\<close>

text \<open>\<^verbatim>\<open>a || b || ''\<close> on optional strings.\<close>

fun firstTruthy :: "string option list \<Rightarrow> string" where
  "firstTruthy [] = []"
| "firstTruthy (x # xs) = (if truthy x then orElse x [] else firstTruthy xs)"

text \<open>The \<^verbatim>\<open>try { generateSpeech; uploadBuffer; createAsset } catch { }\<close> block: a failure
  is logged and the scene stays without audio.\<close>

definition tryGenerateSpeech ::
  "Env \<Rightarrow> string \<Rightarrow> nat \<Rightarrow> string \<Rightarrow> string \<Rightarrow> string \<Rightarrow> string \<Rightarrow> Scene list \<Rightarrow> World
     \<Rightarrow> Scene list \<times> World" where
  "tryGenerateSpeech env jobId i txt voice textHash filename scs w =
     (let w1 = external env (GenerateSpeech i) w
      in case generateSpeech env txt voice of
           Inl err \<Rightarrow> (scs, w1)
         | Inr audioBuffer \<Rightarrow>
             let w2 = external env (UploadAudio i) w1
             in case uploadBuffer env audioBuffer ''audio/mpeg'' filename of
                  Inl err \<Rightarrow> (scs, w2)
                | Inr audioUrlNew \<Rightarrow>
                    (scs[i := (scs ! i)\<lparr> audioAssetUrl := Some audioUrlNew \<rparr>],
                     createAsset \<lparr> asset_jobId = jobId, assetType = ''audio'',
                                   url = audioUrlNew,
                                   metadata = AudioMeta i voice textHash \<rparr> w2))"

definition audioScene ::
  "Env \<Rightarrow> string \<Rightarrow> nat \<Rightarrow> string \<Rightarrow> nat \<Rightarrow> Scene list \<Rightarrow> Scene list io" where
  "audioScene env jobId jobStartTime voice i updatedScenes =
     andThen (throwIfCancelled jobId) (\<lambda>u w.
       let scene = updatedScenes ! i;
           txt = firstTruthy [voiceSegmentText scene, textOverlay scene]
       in if truthy (audioAssetUrl scene) then (Inr updatedScenes, w)
          else
            let (scs1, w1) =
                  (if trimTruthy txt then
                     (let textHash = generateHash env (txt @ voice @ jobId);
                          filename = jobId @ ''/audio/voice_'' @ showNat i @ ''_''
                                     @ textHash @ ''.mp3''
                      in case getAssetByPath jobId (''/objects/generated/'' @ filename) w of
                           Some existingAsset \<Rightarrow>
                             (updatedScenes[i := scene\<lparr>
                                audioAssetUrl := Some (url existingAsset) \<rparr>], w)
                         | None \<Rightarrow>
                             tryGenerateSpeech env jobId i txt voice textHash filename
                               updatedScenes w)
                   else (updatedScenes, w));
                audioProgress = of_int (STEP_WEIGHTS T_script)
                  + of_int (STEP_WEIGHTS T_assets_visual)
                  + (of_int (STEP_WEIGHTS T_assets_audio) * of_nat (i + 1))
                    / of_nat (length scs1);
                eta = calculateETA jobStartTime (clock w1) audioProgress;
                w2 = updateJob jobId (noPatch\<lparr>
                       p_progressPercent := Some (js_round audioProgress),
                       p_scenes := Some scs1,
                       p_etaSeconds := Some eta \<rparr>) w1;
                w3 = updateLastProgress jobId w2
            in (Inr scs1, w3))"

lemma length_tryGenerateSpeech:
  "tryGenerateSpeech env jobId i txt voice textHash filename scs w = (scs', w')
   \<Longrightarrow> length scs' = length scs"
  by (auto simp: tryGenerateSpeech_def Let_def split: sum.splits)

lemma length_audioScene:
  "audioScene env jobId t0 voice i scs w = (Inr scs', w') \<Longrightarrow> length scs' = length scs"
  by (auto simp: audioScene_def andThen_def Let_def
      split: sum.splits prod.splits option.splits if_splits
      dest: length_tryGenerateSpeech)

function audioLoop ::
  "Env \<Rightarrow> string \<Rightarrow> nat \<Rightarrow> string \<Rightarrow> nat \<Rightarrow> Scene list \<Rightarrow> Scene list io" where
  "audioLoop env jobId jobStartTime voice i updatedScenes w =
     (if i < length updatedScenes then
        (case audioScene env jobId jobStartTime voice i updatedScenes w of
           (Inl e, w1) \<Rightarrow> (Inl e, w1)
         | (Inr scs, w1) \<Rightarrow> audioLoop env jobId jobStartTime voice (i + 1) scs w1)
      else (Inr updatedScenes, w))"
  by pat_completeness auto
termination
  by (relation "measure (\<lambda>(env, jobId, t0, voice, i, scs, w). length scs - i)")
     (auto dest!: length_audioScene [OF sym])

declare audioLoop.simps [simp del]

definition MAX_CONSECUTIVE_FAILURES :: nat where
  "MAX_CONSECUTIVE_FAILURES = 3"

text \<open>\<^verbatim>\<open>Math.max(3, Math.min(10, (scene.textOverlay?.length || 50) / 15))\<close>.\<close>

definition estimatedDuration :: "Scene \<Rightarrow> rat" where
  "estimatedDuration scene =
     (let len = (case textOverlay scene of
                   None \<Rightarrow> 50
                 | Some t \<Rightarrow> if length t = 0 then 50 else length t)
      in max 3 (min 10 (of_nat len / 15)))"

text \<open>The \<^verbatim>\<open>try { download; getAudioDuration } catch { ... }\<close> block of the timing loop
  for a scene with audio: the duration to record and the new count of consecutive
  failures, or the abort after the third failure in a row.\<close>

definition detectDuration ::
  "Env \<Rightarrow> string \<Rightarrow> nat \<Rightarrow> nat \<Rightarrow> Scene \<Rightarrow> (rat \<times> nat) io" where
  "detectDuration env jobId i consecutiveFailures scene w =
     (let tempPath = ''/tmp/audio_check_'' @ jobId @ ''_'' @ showNat i @ ''.mp3'';
          w1 = external env (DownloadAudio i) w;
          (probed, w2) =
            (case downloadAudio env (orElse (audioAssetUrl scene) []) of
               Inl e \<Rightarrow> (Inl e, w1)
             | Inr contents \<Rightarrow> getAudioDuration env tempPath w1)
      in case probed of
           Inr d \<Rightarrow> (Inr (d, 0), w2)
         | Inl e \<Rightarrow>
             if MAX_CONSECUTIVE_FAILURES \<le> consecutiveFailures + 1
             then (Inl (showNat MAX_CONSECUTIVE_FAILURES
                        @ '' consecutive audio duration detection failures. Aborting to prevent A/V desync.''),
                   w2)
             else (Inr (estimatedDuration scene, consecutiveFailures + 1), w2))"

text \<open>One iteration of the timing loop: the scene's duration is settled, then its start
  and end are set from the running total.\<close>

definition timingScene ::
  "Env \<Rightarrow> string \<Rightarrow> nat \<Rightarrow> nat \<Rightarrow> rat \<Rightarrow> Scene list \<Rightarrow> (Scene list \<times> nat \<times> rat) io" where
  "timingScene env jobId i consecutiveFailures currentTime updatedScenes w =
     (let scene = updatedScenes ! i;
          (settled, w1) =
            (if truthy (audioAssetUrl scene)
             then detectDuration env jobId i consecutiveFailures scene w
             else (Inr (3, consecutiveFailures), w))
      in case settled of
           Inl e \<Rightarrow> (Inl e, w1)
         | Inr (d, failures) \<Rightarrow>
             let scene1 = scene\<lparr> audioDurationSeconds := Some d \<rparr>;
                 duration = durationOr5 scene1;
                 scene2 = scene1\<lparr> startTime := currentTime,
                                  endTime := currentTime + duration \<rparr>
             in (Inr (updatedScenes[i := scene2], failures, currentTime + duration), w1))"

lemma length_timingScene:
  "timingScene env jobId i k t scs w = (Inr (scs', k', t'), w') \<Longrightarrow> length scs' = length scs"
  by (auto simp: timingScene_def Let_def split: sum.splits prod.splits if_splits)

function timingLoop ::
  "Env \<Rightarrow> string \<Rightarrow> nat \<Rightarrow> nat \<Rightarrow> rat \<Rightarrow> Scene list \<Rightarrow> (Scene list \<times> rat) io" where
  "timingLoop env jobId i consecutiveFailures currentTime updatedScenes w =
     (if i < length updatedScenes then
        (case timingScene env jobId i consecutiveFailures currentTime updatedScenes w of
           (Inl e, w1) \<Rightarrow> (Inl e, w1)
         | (Inr (scs, failures, t), w1) \<Rightarrow> timingLoop env jobId (i + 1) failures t scs w1)
      else (Inr (updatedScenes, currentTime), w))"
  by pat_completeness auto
termination
  by (relation "measure (\<lambda>(env, jobId, i, k, t, scs, w). length scs - i)")
     (auto dest!: length_timingScene [OF sym])

declare timingLoop.simps [simp del]

definition audioStage ::
  "Env \<Rightarrow> string \<Rightarrow> JobSettings \<Rightarrow> nat \<Rightarrow> JobContext \<Rightarrow> JobContext io" where
  "audioStage env jobId st jobStartTime ctx w =
     (let w1 = updateJob jobId (noPatch\<lparr> p_status := Some J_generating_assets \<rparr>) w;
          ctx1 = reloadScenes jobId ctx w1
      in case ctx_scenes ctx1 of
           None \<Rightarrow> (Inr ctx1, w1)
         | Some scs \<Rightarrow>
             if truthy (ctx_script ctx1) \<and> 0 < length scs then
               (let voice = (if truthy (audio_voiceModel st)
                             then orElse (audio_voiceModel st) [] else ''nova'')
                in andThen (audioLoop env jobId jobStartTime voice 0 scs) (\<lambda>withAudio.
                   andThen (timingLoop env jobId 0 0 0 withAudio) (\<lambda>(updatedScenes, totalTime) w2.
                     (Inr (ctx1\<lparr> ctx_scenes := Some updatedScenes \<rparr>),
                      updateJob jobId (noPatch\<lparr> p_scenes := Some updatedScenes \<rparr>) w2))) w1)
             else (Inr ctx1, w1))"

subsection \<open>Stage 4: video\<close>

definition videoStage ::
  "Env \<Rightarrow> string \<Rightarrow> JobSettings \<Rightarrow> JobContext \<Rightarrow> JobContext io" where
  "videoStage env jobId st ctx w =
     (let w1 = updateJob jobId (noPatch\<lparr> p_status := Some J_rendering_video \<rparr>) w;
          ctx1 = reloadScenes jobId ctx w1
      in case ctx_scenes ctx1 of
           None \<Rightarrow> (Inr ctx1, w1)
         | Some scs \<Rightarrow>
             if 0 < length scs then
               andThen (renderVideo env jobId scs) (\<lambda>result w2.
                 let integrity = integrityCheck result
                 in if \<not> valid integrity
                    then (Inl (''Video integrity check failed: ''
                               @ orElse (ic_error integrity) ''undefined''), w2)
                    else
                      let w3 = createAsset \<lparr> asset_jobId = jobId, assetType = ''video'',
                                 url = r_videoUrl result,
                                 metadata = VideoMeta (r_durationSeconds result) \<rparr> w2;
                          w4 = createAsset \<lparr> asset_jobId = jobId, assetType = ''image'',
                                 url = r_thumbnailUrl result,
                                 metadata = ThumbnailMeta \<rparr> w3;
                          videoProgress = STEP_WEIGHTS T_script + STEP_WEIGHTS T_assets_visual
                                          + STEP_WEIGHTS T_assets_audio + STEP_WEIGHTS T_video;
                          w5 = updateJob jobId (noPatch\<lparr>
                                 p_progressPercent := Some videoProgress,
                                 p_durationSeconds := Some (r_durationSeconds result),
                                 p_thumbnailUrl := Some (r_thumbnailUrl result),
                                 p_videoUrl := Some (r_videoUrl result),
                                 p_etaSeconds := Some (Some 10) \<rparr>) w4;
                          w6 = updateLastProgress jobId w5
                      in (Inr ctx1, w6)) w1
             else (Inr ctx1, w1))"

subsection \<open>Stage 5: caption\<close>

definition captionStage ::
  "Env \<Rightarrow> string \<Rightarrow> JobSettings \<Rightarrow> JobContext \<Rightarrow> JobContext io" where
  "captionStage env jobId st ctx w =
     (let w1 = updateJob jobId (noPatch\<lparr> p_status := Some J_generating_caption \<rparr>) w;
          stored = (case getJob jobId w1 of
                      None \<Rightarrow> None
                    | Some (freshJob, steps) \<Rightarrow> scriptText freshJob);
          scriptTxt = firstTruthy [stored, ctx_script ctx]
      in if scriptTxt \<noteq> [] then
           (let w2 = external env GenerateCaption w1
            in case generateCaptionAndHashtags env (settings_contentType st) scriptTxt of
                 Inl e \<Rightarrow> (Inl e, w2)
               | Inr (cap, tags) \<Rightarrow>
                   let w3 = updateJob jobId (noPatch\<lparr>
                              p_caption := Some cap,
                              p_hashtags := Some tags,
                              p_progressPercent := Some 100,
                              p_etaSeconds := Some (Some 0) \<rparr>) w2;
                       w4 = updateLastProgress jobId w3
                   in (Inr ctx, w4))
         else (Inr ctx, w1))"

subsection \<open>The pipeline\<close>

text \<open>The \<^verbatim>\<open>try\<close> block of \<^verbatim>\<open>processJob\<close>: the five stages in order, the cancellation flag
  polled before each.\<close>

definition processJob_try :: "Env \<Rightarrow> string \<Rightarrow> nat \<Rightarrow> unit io" where
  "processJob_try env jobId jobStartTime w =
     (case getJob jobId w of
        None \<Rightarrow> (Inr (), w)
      | Some (job, steps) \<Rightarrow>
          let st = settings job;
              ctx0 = \<lparr> ctx_script = None, ctx_scenes = None \<rparr>;
              estimatedScenes = (case visual_scenesPerMinute st of
                                   None \<Rightarrow> 6
                                 | Some n \<Rightarrow> if n = 0 then 6 else int n);
              initialETA = STEP_TIME_ESTIMATES T_script
                + estimatedScenes * STEP_TIME_ESTIMATES T_assets_visual
                + estimatedScenes * STEP_TIME_ESTIMATES T_assets_audio
                + estimatedScenes * STEP_TIME_ESTIMATES T_video div 5
                + STEP_TIME_ESTIMATES T_caption;
              w1 = updateJob jobId (noPatch\<lparr>
                     p_status := Some J_running,
                     p_progressPercent := Some 0,
                     p_etaSeconds := Some (Some initialETA) \<rparr>) w;
              w2 = updateLastProgress jobId w1
          in (andThen (throwIfCancelled jobId) (\<lambda>u.
              andThen (runStep jobId T_script (scriptStage env jobId st jobStartTime) ctx0) (\<lambda>ctx1.
              andThen (throwIfCancelled jobId) (\<lambda>u.
              andThen (runStep jobId T_assets_visual (visualStage env jobId st jobStartTime) ctx1) (\<lambda>ctx2.
              andThen (throwIfCancelled jobId) (\<lambda>u.
              andThen (runStep jobId T_assets_audio (audioStage env jobId st jobStartTime) ctx2) (\<lambda>ctx3.
              andThen (throwIfCancelled jobId) (\<lambda>u.
              andThen (runStep jobId T_video (videoStage env jobId st) ctx3) (\<lambda>ctx4.
              andThen (throwIfCancelled jobId) (\<lambda>u.
              andThen (runStep jobId T_caption (captionStage env jobId st) ctx4) (\<lambda>ctx5 w3.
                (Inr (), updateJob jobId (noPatch\<lparr>
                           p_status := Some J_completed,
                           p_progressPercent := Some 100,
                           p_etaSeconds := Some (Some 0) \<rparr>) w3)))))))))))) w2)"

text \<open>
  \<^verbatim>\<open>processJob\<close>: the lease is taken or the job is left alone; whatever the \<^verbatim>\<open>try\<close> block
  throws becomes \<^verbatim>\<open>status = 'failed'\<close> with the error's message; the lease is released
  on every path.  The lease-renewal timer only rewrites the lease columns and is left
  out.
\<close>

definition processJob :: "Env \<Rightarrow> string \<Rightarrow> World \<Rightarrow> World" where
  "processJob env jobId w =
     (case acquireJobLock jobId (workerId env) LEASE_SECONDS w of
        (False, w0) \<Rightarrow> w0
      | (True, w0) \<Rightarrow>
          let jobStartTime = clock w0;
              (outcome, w1) = processJob_try env jobId jobStartTime w0;
              w2 = (case outcome of
                      Inr u \<Rightarrow> w1
                    | Inl errorMsg \<Rightarrow>
                        updateJob jobId (noPatch\<lparr>
                          p_status := Some J_failed,
                          p_errorMessage := Some errorMsg \<rparr>) w1)
          in releaseJobLock jobId (workerId env) w2)"

section \<open>Example data\<close>

text \<open>A freshly created job, as \<^verbatim>\<open>POST /api/jobs\<close> stores it, in an otherwise empty
  database; the same job while another worker holds an unexpired lease on it; and what
  ffprobe reports on a file with a single 640x480 video stream and no audio.\<close>

definition exSettings :: JobSettings where
  "exSettings = \<lparr> settings_contentType = ''facts'', targetDurationSeconds = 90,
     visual_stylePrompt = None, visual_scenesPerMinute = None,
     audio_voiceModel = Some ''nova'', subtitles_enabled = True \<rparr>"

definition exJob :: Job where
  "exJob = \<lparr> title = ''Facts'', status = J_queued, contentType = ''facts'',
     settings = exSettings, scriptText = None, scenes = None, caption = None,
     hashtags = None, videoUrl = None, audioUrl = None, subtitlesUrl = None,
     thumbnailUrl = None, durationSeconds = None, progressPercent = 0,
     etaSeconds = None, errorMessage = None, lockedBy = None, lockedAt = None,
     leaseExpiresAt = None, lastProgressAt = None, cancelRequested = False,
     createdAt = 0, updatedAt = 0 \<rparr>"

definition exWorld :: World where
  "exWorld = \<lparr> jobs = (\<lambda>k. if k = ''j1'' then Some exJob else None),
     jobSteps = [], assets = [], settingsTable = (\<lambda>k. None), clock = 5, trace = [] \<rparr>"


definition exProbe :: FfprobeResult where
  "exProbe = ProbeExit 0 [] (Some \<lparr> probe_duration = Num 12,
     probe_streams = [\<lparr> codec_type = ''video'', stream_width = Some 640,
                        stream_height = Some 480 \<rparr>] \<rparr>)"

text \<open>The five step rows of job \<^verbatim>\<open>j1\<close> with given statuses; a generated scene; an
  environment whose image and speech services are down while everything else answers;
  the job just created with its five queued steps; and the job as a crash during
  rendering leaves it (three steps completed, progress 55), once its lease has been
  cleared.\<close>

definition mkStep :: "string \<Rightarrow> StepType \<Rightarrow> StepStatus \<Rightarrow> JobStep" where
  "mkStep sid ty stt = \<lparr> step_id = sid, step_jobId = ''j1'', stepType = ty, step_status = stt,
     message = None, startedAt = None, finishedAt = None, durationMs = None \<rparr>"

definition exStepRows ::
  "StepStatus \<Rightarrow> StepStatus \<Rightarrow> StepStatus \<Rightarrow> StepStatus \<Rightarrow> StepStatus \<Rightarrow> JobStep list" where
  "exStepRows a b c d e =
     [mkStep ''s1'' T_script a, mkStep ''s2'' T_assets_visual b, mkStep ''s3'' T_assets_audio c,
      mkStep ''s4'' T_video d, mkStep ''s5'' T_caption e]"

definition exScene :: Scene where
  "exScene = \<lparr> scene_id = ''scene-1'', scene_index = 0, startTime = 0, endTime = 5,
     textOverlay = Some ''One fact.'', voiceSegmentText = Some ''One fact.'',
     backgroundPrompt = None, backgroundAssetUrl = None, audioAssetUrl = None,
     audioDurationSeconds = None \<rparr>"

definition exGoodProbe :: FfprobeResult where
  "exGoodProbe = ProbeExit 0 [] (Some \<lparr> probe_duration = Num 3,
     probe_streams = [\<lparr> codec_type = ''video'', stream_width = Some 1080,
                        stream_height = Some 1920 \<rparr>] \<rparr>)"

definition exEnv :: Env where
  "exEnv = \<lparr> workerId = ''worker-a'',
     latency = (\<lambda>c. 1000),
     cancelArrives = (\<lambda>c. None),
     generateHash = (\<lambda>s. ''0a1b2c3d''),
     generateScript = (\<lambda>st. Inr (''One fact.'', [exScene])),
     generateImagePrompt = (\<lambda>sc style ct. Inr ''a night sky''),
     generateImage = (\<lambda>p. Inl ''image service unavailable''),
     uploadBuffer = (\<lambda>buf mime file. Inr (''/objects/generated/'' @ file)),
     generateSpeech = (\<lambda>t v. Inl ''speech service unavailable''),
     downloadAudio = (\<lambda>u. Inr ''mp3''),
     ffprobeDuration = (\<lambda>p k. Inr (Num 4)),
     renderPipeline = (\<lambda>jid scs. Inr \<lparr> out_videoUrl = ''/objects/generated/j1/final.mp4'',
        out_thumbnailUrl = ''/objects/generated/j1/thumbnail.jpg'',
        out_probe = exGoodProbe, out_stat = Some 50000 \<rparr>),
     generateCaptionAndHashtags = (\<lambda>ct s. Inr (''A fact'', [''facts''])) \<rparr>"

definition exFresh :: World where
  "exFresh = exWorld\<lparr> jobSteps := exStepRows S_queued S_queued S_queued S_queued S_queued \<rparr>"

definition exCrashedJob :: Job where
  "exCrashedJob = exJob\<lparr> status := J_rendering_video, progressPercent := 55,
     scriptText := Some ''One fact.'', scenes := Some [exScene] \<rparr>"

definition exCrashed :: World where
  "exCrashed = exWorld\<lparr>
     jobs := (jobs exWorld)(''j1'' := Some exCrashedJob),
     jobSteps := exStepRows S_completed S_completed S_completed S_running S_queued \<rparr>"













section \<open>Runs and their traces\<close>

text \<open>
  What a computation adds to the trace, and what it leaves alone.  \<open>okEvents S lo hi err evs\<close>:
  the events \<open>evs\<close> call only services of the stages in \<open>S\<close> and invoke only stage
  functions of \<open>S\<close>, the progress values written lie between \<open>lo\<close> and \<open>hi\<close> and never
  decrease, and a poll that finds the flag set is the last event, the computation ending
  with the cancellation error.  \<open>run\<close> adds that the step rows and the set of job ids
  are untouched.
\<close>


fun progressWrites :: "Event list \<Rightarrow> int list" where
  "progressWrites [] = []"
| "progressWrites (ProgressWrite n # es) = n # progressWrites es"
| "progressWrites (e # es) = progressWrites es"

definition errOf :: "string + 'a \<Rightarrow> string option" where
  "errOf r = (case r of Inl e \<Rightarrow> Some e | Inr x \<Rightarrow> None)"

definition okEvents :: "StepType set \<Rightarrow> int \<Rightarrow> int \<Rightarrow> string option \<Rightarrow> Event list \<Rightarrow> bool" where
  "okEvents S lo hi err evs =
     ((\<forall>c. Ext c \<in> set evs \<longrightarrow> stage_of c \<in> S) \<and>
      (\<forall>s. Invoke s \<in> set evs \<longrightarrow> s \<in> S) \<and>
      (\<forall>n \<in> set (progressWrites evs). lo \<le> n \<and> n \<le> hi) \<and>
      sorted (progressWrites evs) \<and>
      (Poll True \<in> set evs \<longrightarrow>
         err = Some ''Cancelled by user'' \<and> last evs = Poll True
         \<and> Poll True \<notin> set (butlast evs)))"

definition run :: "StepType set \<Rightarrow> int \<Rightarrow> int \<Rightarrow> World \<Rightarrow> string option \<Rightarrow> World \<Rightarrow> bool" where
  "run S lo hi w err w' =
     ((\<exists>evs. trace w' = trace w @ evs \<and> okEvents S lo hi err evs) \<and>
      jobSteps w' = jobSteps w \<and>
      (\<forall>jid. (jobs w' jid = None) = (jobs w jid = None)))"

lemma progressWrites_append [simp]:
  "progressWrites (xs @ ys) = progressWrites xs @ progressWrites ys"
  by (induction xs rule: progressWrites.induct) auto

lemma set_progressWrites: "(n \<in> set (progressWrites es)) = (ProgressWrite n \<in> set es)"
  by (induction es rule: progressWrites.induct) auto

lemma errOf_simps [simp]: "errOf (Inl e) = Some e" "errOf (Inr x) = None"
  by (simp_all add: errOf_def)

lemma okEvents_Nil [simp]: "okEvents S lo hi err []"
  by (simp add: okEvents_def)

lemma run_refl [simp]: "run S lo hi w err w"
  by (simp add: run_def)

lemma okEvents_append:
  assumes "okEvents S lo1 hi1 None e1" and "okEvents S lo2 hi2 err e2"
    and "lo1 \<le> hi1 \<Longrightarrow> lo \<le> lo1 \<and> hi1 \<le> hi"
    and "lo2 \<le> hi2 \<Longrightarrow> lo \<le> lo2 \<and> hi2 \<le> hi"
    and "lo1 \<le> hi1 \<Longrightarrow> lo2 \<le> hi2 \<Longrightarrow> hi1 \<le> lo2"
  shows "okEvents S lo hi err (e1 @ e2)"
proof -
  have np: "Poll True \<notin> set e1" using assms(1) by (auto simp: okEvents_def)
  have b1: "\<forall>n \<in> set (progressWrites e1). lo1 \<le> n \<and> n \<le> hi1"
    and b2: "\<forall>n \<in> set (progressWrites e2). lo2 \<le> n \<and> n \<le> hi2"
    using assms(1,2) by (auto simp: okEvents_def)
  have s: "sorted (progressWrites e1 @ progressWrites e2)"
    using assms(1,2) b1 b2 assms(5)
    by (fastforce simp: okEvents_def sorted_append)
  have r: "\<forall>n \<in> set (progressWrites (e1 @ e2)). lo \<le> n \<and> n \<le> hi"
    using b1 b2 assms(3,4) by fastforce
  have p: "Poll True \<in> set (e1 @ e2) \<longrightarrow>
         err = Some ''Cancelled by user'' \<and> last (e1 @ e2) = Poll True
         \<and> Poll True \<notin> set (butlast (e1 @ e2))"
    using assms(2) np by (auto simp: okEvents_def butlast_append)
  show ?thesis
    unfolding okEvents_def using assms(1,2) s r p
    by (auto simp: okEvents_def)
qed

lemma run_seq:
  assumes "run S lo1 hi1 w None w1" and "run S lo2 hi2 w1 err w2"
    and "lo1 \<le> hi1 \<Longrightarrow> lo \<le> lo1 \<and> hi1 \<le> hi"
    and "lo2 \<le> hi2 \<Longrightarrow> lo \<le> lo2 \<and> hi2 \<le> hi"
    and "lo1 \<le> hi1 \<Longrightarrow> lo2 \<le> hi2 \<Longrightarrow> hi1 \<le> lo2"
  shows "run S lo hi w err w2"
proof -
  obtain e1 where e1: "trace w1 = trace w @ e1" "okEvents S lo1 hi1 None e1"
    using assms(1) by (auto simp: run_def)
  obtain e2 where e2: "trace w2 = trace w1 @ e2" "okEvents S lo2 hi2 err e2"
    using assms(2) by (auto simp: run_def)
  have "okEvents S lo hi err (e1 @ e2)"
    using okEvents_append [OF e1(2) e2(2)] assms(3,4,5) by blast
  moreover have "trace w2 = trace w @ (e1 @ e2)" using e1 e2 by simp
  moreover have "jobSteps w2 = jobSteps w" using assms(1,2) by (simp add: run_def)
  moreover have "\<forall>jid. (jobs w2 jid = None) = (jobs w jid = None)"
    using assms(1,2) by (simp add: run_def)
  ultimately show ?thesis unfolding run_def by blast
qed

lemma okEvents_weaken:
  assumes "okEvents S lo1 hi1 err evs" and "S \<subseteq> S'"
    and "lo1 \<le> hi1 \<Longrightarrow> lo \<le> lo1 \<and> hi1 \<le> hi"
  shows "okEvents S' lo hi err evs"
proof -
  have "\<forall>n \<in> set (progressWrites evs). lo \<le> n \<and> n \<le> hi"
  proof
    fix n assume n: "n \<in> set (progressWrites evs)"
    then have "lo1 \<le> n \<and> n \<le> hi1" using assms(1) by (auto simp: okEvents_def)
    then show "lo \<le> n \<and> n \<le> hi" using assms(3) by linarith
  qed
  then show ?thesis using assms(1,2) unfolding okEvents_def by blast
qed

lemma run_weaken:
  assumes "run S lo1 hi1 w err w'" and "S \<subseteq> S'"
    and "lo1 \<le> hi1 \<Longrightarrow> lo \<le> lo1 \<and> hi1 \<le> hi"
  shows "run S' lo hi w err w'"
  using assms okEvents_weaken [OF _ assms(2), of lo1 hi1 err _ lo hi]
  unfolding run_def by blast


definition progressEvent :: "JobPatch \<Rightarrow> Event list" where
  "progressEvent p = (case p_progressPercent p of None \<Rightarrow> [] | Some n \<Rightarrow> [ProgressWrite n])"

lemma trace_updateJob:
  "trace (updateJob jid p w) = trace w @ (if jobs w jid = None then [] else progressEvent p)"
  by (simp add: updateJob_def progressEvent_def split: option.splits)

lemma jobSteps_updateJob [simp]: "jobSteps (updateJob jid p w) = jobSteps w"
  by (simp add: updateJob_def split: option.splits)

lemma defined_updateJob [simp]: "(jobs (updateJob jid p w) k = None) = (jobs w k = None)"
  by (simp add: updateJob_def split: option.splits)

lemma clock_updateJob [simp]: "clock (updateJob jid p w) = clock w"
  by (simp add: updateJob_def split: option.splits)

lemma trace_updateLastProgress [simp]: "trace (updateLastProgress jid w) = trace w"
  by (simp add: updateLastProgress_def split: option.splits)

lemma jobSteps_updateLastProgress [simp]: "jobSteps (updateLastProgress jid w) = jobSteps w"
  by (simp add: updateLastProgress_def split: option.splits)

lemma defined_updateLastProgress [simp]:
  "(jobs (updateLastProgress jid w) k = None) = (jobs w k = None)"
  by (simp add: updateLastProgress_def split: option.splits)

lemma createAsset_simps [simp]:
  "trace (createAsset a w) = trace w"
  "jobSteps (createAsset a w) = jobSteps w"
  "jobs (createAsset a w) = jobs w"
  "clock (createAsset a w) = clock w"
  by (simp_all add: createAsset_def)

lemma progressEvent_cancel [simp]:
  "progressEvent (noPatch\<lparr> p_cancelRequested := Some True \<rparr>) = []"
  by (simp add: progressEvent_def noPatch_def)

lemma cancelJob_simps [simp]:
  "trace (snd (cancelJob jid w)) = trace w"
  "jobSteps (snd (cancelJob jid w)) = jobSteps w"
  "(jobs (snd (cancelJob jid w)) k = None) = (jobs w k = None)"
  by (simp_all add: cancelJob_def getJob_def trace_updateJob split: option.splits)

lemma external_simps [simp]:
  "trace (external env c w) = trace w @ [Ext c]"
  "jobSteps (external env c w) = jobSteps w"
  "(jobs (external env c w) k = None) = (jobs w k = None)"
  by (simp_all add: external_def Let_def split: option.splits)

lemma isCancelled_simps [simp]:
  "trace (snd (isCancelled jid w)) = trace w @ [Poll (fst (isCancelled jid w))]"
  "jobSteps (snd (isCancelled jid w)) = jobSteps w"
  "jobs (snd (isCancelled jid w)) = jobs w"
  by (simp_all add: isCancelled_def Let_def)

lemma run_throwIfCancelled:
  "throwIfCancelled jid w = (r, w') \<Longrightarrow> run S lo hi w (errOf r) w'"
  by (auto simp: throwIfCancelled_def isCancelled_def Let_def run_def okEvents_def
      split: bool.splits prod.splits)

lemma run_scriptStage:
  "scriptStage env jid st t0 ctx w = (r, w') \<Longrightarrow> run {T_script} 10 10 w (errOf r) w'"
  by (auto simp: scriptStage_def Let_def run_def okEvents_def trace_updateJob
      progressEvent_def noPatch_def
      split: sum.splits prod.splits)


definition sceneProgress :: "int \<Rightarrow> int \<Rightarrow> nat \<Rightarrow> nat \<Rightarrow> int" where
  "sceneProgress base weight k n = js_round (of_int base + (of_int weight * of_nat k) / of_nat n)"

lemma js_round_mono: "x \<le> y \<Longrightarrow> js_round x \<le> js_round y"
  by (simp add: js_round_def floor_mono)

lemma js_round_of_int [simp]: "js_round (of_int k) = k"
  by (simp add: js_round_def) linarith

lemma sceneProgress_mono:
  "0 \<le> weight \<Longrightarrow> k \<le> k' \<Longrightarrow> sceneProgress base weight k n \<le> sceneProgress base weight k' n"
  unfolding sceneProgress_def
  by (intro js_round_mono add_left_mono divide_right_mono mult_left_mono) auto

lemma sceneProgress_0 [simp]: "sceneProgress base weight 0 n = base"
  by (simp add: sceneProgress_def)

lemma sceneProgress_full [simp]: "0 < n \<Longrightarrow> sceneProgress base weight n n = base + weight"
proof -
  assume "0 < n"
  then have "of_int base + (of_int weight * of_nat n) / (of_nat n :: rat) = of_int (base + weight)"
    by simp
  then show ?thesis unfolding sceneProgress_def by (simp only: js_round_of_int)
qed

lemma ball_empty_range [simp]: "(\<forall>n\<in>set xs. 1 \<le> n \<and> n \<le> (0::int)) = (xs = [])"
  by (cases xs) auto

lemma isCancelledD:
  "isCancelled jid w = (b, w1) \<Longrightarrow> w1 = w\<lparr> trace := trace w @ [Poll b] \<rparr>"
  by (auto simp: isCancelled_def Let_def)

lemma run_tryGenerateImage:
  "tryGenerateImage env jid i pr h f scs w = (scs', w') \<Longrightarrow>
     run {T_assets_visual} 1 0 w None w' \<and> length scs' = length scs"
  by (auto simp: tryGenerateImage_def Let_def run_def okEvents_def split: sum.splits)

lemma run_visualScene:
  "visualScene env jid st t0 i scs w = (r, w') \<Longrightarrow>
     run {T_assets_visual} (sceneProgress 10 30 (i + 1) (length scs))
       (sceneProgress 10 30 (i + 1) (length scs)) w (errOf r) w'"
  by (auto simp: visualScene_def andThen_def Let_def throwIfCancelled_def
      run_def okEvents_def trace_updateJob progressEvent_def noPatch_def sceneProgress_def
      split: sum.splits prod.splits bool.splits if_splits option.splits
      dest!: run_tryGenerateImage isCancelledD)


lemma sceneProgress_le_full:
  "0 \<le> weight \<Longrightarrow> k \<le> n \<Longrightarrow> 0 < n \<Longrightarrow> sceneProgress base weight k n \<le> base + weight"
  using sceneProgress_mono [of weight k n base n] by simp

lemma run_visualLoop:
  "visualLoop env jid st t0 i scs w = (r, w') \<Longrightarrow>
     run {T_assets_visual} (sceneProgress 10 30 i (length scs)) 40 w (errOf r) w'"
proof (induction env jid st t0 i scs w arbitrary: r w' rule: visualLoop.induct)
  case (1 env jid st t0 i scs w)
  show ?case
  proof (cases "i < length scs")
    case False
    with "1.prems" show ?thesis by (simp add: visualLoop.simps)
  next
    case True
    obtain r1 w1 where it: "visualScene env jid st t0 i scs w = (r1, w1)" by fastforce
    have le: "sceneProgress 10 30 i (length scs) \<le> sceneProgress 10 30 (i + 1) (length scs)"
      by (rule sceneProgress_mono) auto
    have pos: "0 < length scs" and suc: "i + 1 \<le> length scs" using True by auto
    have top: "sceneProgress 10 30 (i + 1) (length scs) \<le> 40"
      using sceneProgress_le_full [OF _ suc pos, of 30 10] by simp
    note step = run_visualScene [OF it]
    show ?thesis
    proof (cases r1)
      case (Inl e)
      with "1.prems" True it have eq: "r = r1" "w' = w1" by (simp_all add: visualLoop.simps)
      show ?thesis
        unfolding eq
        by (rule run_weaken [OF step]) (use le top in simp_all)
    next
      case (Inr scs1)
      with "1.prems" True it
      have rest: "visualLoop env jid st t0 (i + 1) scs1 w1 = (r, w')"
        by (simp add: visualLoop.simps)
      have len: "length scs1 = length scs" using it Inr by (auto dest: length_visualScene)
      have tail: "run {T_assets_visual} (sceneProgress 10 30 (i + 1) (length scs)) 40 w1 (errOf r) w'"
        using "1.IH" [OF True it [symmetric] _ rest] Inr len by simp
      have head: "run {T_assets_visual} (sceneProgress 10 30 (i + 1) (length scs))
          (sceneProgress 10 30 (i + 1) (length scs)) w None w1"
        using step Inr by simp
      show ?thesis
        by (rule run_seq [OF head tail]) (use le top in simp_all)
    qed
  qed
qed


lemma run_updateJob_quiet:
  "p_progressPercent p = None \<Longrightarrow> run S lo hi w None (updateJob jid p w)"
  by (simp add: run_def trace_updateJob progressEvent_def)

lemma run_visualStage:
  assumes "visualStage env jid st t0 ctx w = (r, w')"
  shows "run {T_assets_visual} 10 40 w (errOf r) w'"
proof -
  define w1 where "w1 = updateJob jid (noPatch\<lparr> p_status := Some J_generating_assets \<rparr>) w"
  have q1: "run {T_assets_visual} 1 0 w None w1"
    unfolding w1_def by (rule run_updateJob_quiet) (simp add: noPatch_def)
  show ?thesis
  proof (cases "ctx_scenes (reloadScenes jid ctx w1)")
    case None
    with assms have eq: "errOf r = None" "w' = w1"
      by (auto simp: visualStage_def Let_def w1_def)
    show ?thesis unfolding eq by (rule run_weaken [OF q1]) simp_all
  next
    case (Some scs)
    show ?thesis
    proof (cases "0 < length scs")
      case False
      with assms Some have eq: "errOf r = None" "w' = w1"
        by (auto simp: visualStage_def Let_def w1_def)
      show ?thesis unfolding eq by (rule run_weaken [OF q1]) simp_all
    next
      case True
      obtain r2 w2 where lp: "visualLoop env jid st t0 0 scs w1 = (r2, w2)" by fastforce
      have l: "run {T_assets_visual} 10 40 w1 (errOf r2) w2"
        using run_visualLoop [OF lp] by simp
      show ?thesis
      proof (cases r2)
        case (Inl e)
        with assms Some True lp have eq: "r = Inl e" "w' = w2"
          by (simp_all add: visualStage_def Let_def w1_def)
        have l': "run {T_assets_visual} 10 40 w1 (errOf (Inl e :: string + JobContext)) w2"
          using l Inl by simp
        show ?thesis unfolding eq
          by (rule run_seq [OF q1 l']) simp_all
      next
        case (Inr upd)
        with assms Some True lp
        have eq: "errOf r = None" "w' = updateJob jid (noPatch\<lparr> p_scenes := Some upd \<rparr>) w2"
          by (auto simp: visualStage_def Let_def w1_def)
        have q3: "run {T_assets_visual} 1 0 w2 None w'"
          unfolding eq by (rule run_updateJob_quiet) (simp add: noPatch_def)
        have l': "run {T_assets_visual} 10 40 w1 None w2"
          using l Inr by simp
        have m: "run {T_assets_visual} 10 40 w None w2"
          by (rule run_seq [OF q1 l']) simp_all
        show ?thesis unfolding eq(1)
          by (rule run_seq [OF m q3]) simp_all
      qed
    qed
  qed
qed

lemma run_tryGenerateSpeech:
  "tryGenerateSpeech env jid i txt voice h f scs w = (scs', w') \<Longrightarrow>
     run {T_assets_audio} 1 0 w None w' \<and> length scs' = length scs"
  by (auto simp: tryGenerateSpeech_def Let_def run_def okEvents_def split: sum.splits)

lemma run_audioScene:
  "audioScene env jid t0 voice i scs w = (r, w') \<Longrightarrow>
     run {T_assets_audio} (sceneProgress 40 15 (i + 1) (length scs))
       (sceneProgress 40 15 (i + 1) (length scs)) w (errOf r) w'"
  by (auto simp: audioScene_def andThen_def Let_def throwIfCancelled_def
      run_def okEvents_def trace_updateJob progressEvent_def noPatch_def sceneProgress_def
      split: sum.splits prod.splits bool.splits if_splits option.splits
      dest!: run_tryGenerateSpeech isCancelledD)

lemma run_audioLoop:
  "audioLoop env jid t0 voice i scs w = (r, w') \<Longrightarrow>
     run {T_assets_audio} (sceneProgress 40 15 i (length scs)) 55 w (errOf r) w'"
proof (induction env jid t0 voice i scs w arbitrary: r w' rule: audioLoop.induct)
  case (1 env jid t0 voice i scs w)
  show ?case
  proof (cases "i < length scs")
    case False
    with "1.prems" show ?thesis by (simp add: audioLoop.simps)
  next
    case True
    obtain r1 w1 where it: "audioScene env jid t0 voice i scs w = (r1, w1)" by fastforce
    have le: "sceneProgress 40 15 i (length scs) \<le> sceneProgress 40 15 (i + 1) (length scs)"
      by (rule sceneProgress_mono) auto
    have pos: "0 < length scs" and suc: "i + 1 \<le> length scs" using True by auto
    have top: "sceneProgress 40 15 (i + 1) (length scs) \<le> 55"
      using sceneProgress_le_full [OF _ suc pos, of 15 40] by simp
    note step = run_audioScene [OF it]
    show ?thesis
    proof (cases r1)
      case (Inl e)
      with "1.prems" True it have eq: "r = r1" "w' = w1" by (simp_all add: audioLoop.simps)
      show ?thesis
        unfolding eq
        by (rule run_weaken [OF step]) (use le top in simp_all)
    next
      case (Inr scs1)
      with "1.prems" True it
      have rest: "audioLoop env jid t0 voice (i + 1) scs1 w1 = (r, w')"
        by (simp add: audioLoop.simps)
      have len: "length scs1 = length scs" using it Inr by (auto dest: length_audioScene)
      have tail: "run {T_assets_audio} (sceneProgress 40 15 (i + 1) (length scs)) 55 w1 (errOf r) w'"
        using "1.IH" [OF True it [symmetric] _ rest] Inr len by simp
      have head: "run {T_assets_audio} (sceneProgress 40 15 (i + 1) (length scs))
          (sceneProgress 40 15 (i + 1) (length scs)) w None w1"
        using step Inr by simp
      show ?thesis
        by (rule run_seq [OF head tail]) (use le top in simp_all)
    qed
  qed
qed

lemma length_audioLoop:
  "audioLoop env jid t0 voice i scs w = (Inr scs', w') \<Longrightarrow> length scs' = length scs"
proof (induction env jid t0 voice i scs w arbitrary: scs' w' rule: audioLoop.induct)
  case (1 env jid t0 voice i scs w)
  then show ?case
    by (cases "i < length scs")
       (auto simp: audioLoop.simps [of env jid t0 voice i scs w]
          split: sum.splits prod.splits dest: length_audioScene)
qed

lemma run_getAudioDurationFrom:
  "getAudioDurationFrom env path retries attempt w = (r, w') \<Longrightarrow>
     run {T_assets_audio} 1 0 w None w'"
proof (induction env path retries attempt w arbitrary: r w' rule: getAudioDurationFrom.induct)
  case (1 env path retries attempt w)
  define w1 where "w1 = external env (ProbeAudio path attempt) w"
  have q1: "run {T_assets_audio} 1 0 w None w1"
    by (simp add: w1_def run_def okEvents_def)
  show ?case
  proof (cases "attempt \<le> retries")
    case False
    with "1.prems" show ?thesis by (simp add: getAudioDurationFrom.simps)
  next
    case True
    show ?thesis
    proof (cases "\<exists>e. (case ffprobeDuration env path attempt of
                          Inl e \<Rightarrow> Inl e
                        | Inr NaN \<Rightarrow> Inl ''Invalid duration: 0 or negative''
                        | Inr (Num d) \<Rightarrow> if 0 < d then Inr d
                                         else Inl ''Invalid duration: 0 or negative'') = Inl e
                     \<and> attempt \<noteq> retries")
      case False
      with "1.prems" True have "w' = w1"
        by (auto simp: getAudioDurationFrom.simps [of env path retries attempt w] Let_def w1_def
            split: sum.splits JsNumber.splits if_splits)
      then show ?thesis using q1 by simp
    next
      case c: True
      then obtain e where e: "(case ffprobeDuration env path attempt of
                          Inl e \<Rightarrow> Inl e
                        | Inr NaN \<Rightarrow> Inl ''Invalid duration: 0 or negative''
                        | Inr (Num d) \<Rightarrow> if 0 < d then Inr d
                                         else Inl ''Invalid duration: 0 or negative'') = Inl e"
        and ne: "attempt \<noteq> retries" by blast
      have rest: "getAudioDurationFrom env path retries (attempt + 1)
                    (w1\<lparr> clock := clock w1 + 500 * attempt \<rparr>) = (r, w')"
        using "1.prems" True e ne
        by (simp add: getAudioDurationFrom.simps [of env path retries attempt w] Let_def w1_def)
      have ih: "run {T_assets_audio} 1 0 (w1\<lparr> clock := clock w1 + 500 * attempt \<rparr>) None w'"
        using "1.IH" [OF True refl refl e ne rest [unfolded w1_def]]
        by (simp add: w1_def)
      have q2: "run {T_assets_audio} 1 0 w None (w1\<lparr> clock := clock w1 + 500 * attempt \<rparr>)"
        by (simp add: w1_def run_def okEvents_def)
      show ?thesis by (rule run_seq [OF q2 ih]) simp_all
    qed
  qed
qed


lemma run_andThen:
  assumes "andThen m f w = (r, w')"
    and "\<And>r1 w1. m w = (r1, w1) \<Longrightarrow> run S lo1 hi1 w (errOf r1) w1"
    and "\<And>x w1 r2 w2. m w = (Inr x, w1) \<Longrightarrow> f x w1 = (r2, w2) \<Longrightarrow> run S lo2 hi2 w1 (errOf r2) w2"
    and "lo1 \<le> hi1 \<Longrightarrow> lo \<le> lo1 \<and> hi1 \<le> hi"
    and "lo2 \<le> hi2 \<Longrightarrow> lo \<le> lo2 \<and> hi2 \<le> hi"
    and "lo1 \<le> hi1 \<Longrightarrow> lo2 \<le> hi2 \<Longrightarrow> hi1 \<le> lo2"
  shows "run S lo hi w (errOf r) w'"
proof -
  obtain r1 w1 where m: "m w = (r1, w1)" by fastforce
  show ?thesis
  proof (cases r1)
    case (Inl e)
    with assms(1) m have eq: "r = Inl e" "w' = w1" by (simp_all add: andThen_def)
    have "run S lo1 hi1 w (errOf (Inl e :: string + 'a)) w1" using assms(2) [OF m] Inl by simp
    then show ?thesis unfolding eq
      by (simp only: errOf_simps) (rule run_weaken, assumption, simp, use assms(4) in simp)
  next
    case (Inr x)
    with assms(1) m have f: "f x w1 = (r, w')" by (simp add: andThen_def)
    have h: "run S lo1 hi1 w None w1" using assms(2) [OF m] Inr by simp
    have t: "run S lo2 hi2 w1 (errOf r) w'" using assms(3) [OF m [unfolded Inr] f] .
    show ?thesis by (rule run_seq [OF h t]) (use assms(4,5,6) in simp_all)
  qed
qed

lemma run_any_err: "run S lo hi w None w' \<Longrightarrow> run S lo hi w err w'"
  by (auto simp: run_def okEvents_def)

lemma run_getAudioDuration:
  "getAudioDuration env path w = (r, w') \<Longrightarrow> run {T_assets_audio} 1 0 w None w'"
  unfolding getAudioDuration_def by (rule run_getAudioDurationFrom)

lemma run_detectDuration:
  assumes "detectDuration env jid i k scene w = (r, w')"
  shows "run {T_assets_audio} 1 0 w None w'"
proof -
  define w1 where "w1 = external env (DownloadAudio i) w"
  define path where "path = ''/tmp/audio_check_'' @ jid @ ''_'' @ showNat i @ ''.mp3''"
  have q1: "run {T_assets_audio} 1 0 w None w1"
    by (simp add: w1_def run_def okEvents_def)
  obtain probed w2 where p: "(case downloadAudio env (orElse (audioAssetUrl scene) []) of
               Inl e \<Rightarrow> (Inl e, w1)
             | Inr contents \<Rightarrow> getAudioDuration env path w1) = (probed, w2)"
    by fastforce
  have q2: "run {T_assets_audio} 1 0 w1 None w2"
  proof (cases "downloadAudio env (orElse (audioAssetUrl scene) [])")
    case (Inl e)
    with p show ?thesis by simp
  next
    case (Inr c)
    with p have "getAudioDuration env path w1 = (probed, w2)" by simp
    from run_getAudioDuration [OF this] show ?thesis .
  qed
  have "w' = w2"
    using assms p
    by (auto simp: detectDuration_def Let_def w1_def path_def split: sum.splits if_splits)
  moreover have "run {T_assets_audio} 1 0 w None w2" by (rule run_seq [OF q1 q2]) simp_all
  ultimately show ?thesis by simp
qed

lemma run_timingScene:
  assumes "timingScene env jid i k t scs w = (r, w')"
  shows "run {T_assets_audio} 1 0 w None w'"
proof (cases "truthy (audioAssetUrl (scs ! i))")
  case False
  with assms have "w' = w" by (auto simp: timingScene_def Let_def split: sum.splits prod.splits)
  then show ?thesis by simp
next
  case True
  obtain r1 w1 where d: "detectDuration env jid i k (scs ! i) w = (r1, w1)" by fastforce
  with assms True have "w' = w1"
    by (auto simp: timingScene_def Let_def split: sum.splits prod.splits)
  with run_detectDuration [OF d] show ?thesis by simp
qed

lemma run_timingLoop:
  "timingLoop env jid i k t scs w = (r, w') \<Longrightarrow> run {T_assets_audio} 1 0 w None w'"
proof (induction env jid i k t scs w arbitrary: r w' rule: timingLoop.induct)
  case (1 env jid i k t scs w)
  show ?case
  proof (cases "i < length scs")
    case False
    with "1.prems" show ?thesis by (simp add: timingLoop.simps)
  next
    case True
    obtain r1 w1 where it: "timingScene env jid i k t scs w = (r1, w1)" by fastforce
    note step = run_timingScene [OF it]
    show ?thesis
    proof (cases r1)
      case (Inl e)
      with "1.prems" True it have eq: "r = Inl e" "w' = w1"
        by (simp_all add: timingLoop.simps [of env jid i k t scs w])
      show ?thesis using step unfolding eq by simp
    next
      case (Inr res)
      obtain scs1 k1 t1 where res: "res = (scs1, k1, t1)" by (cases res) auto
      with "1.prems" True it Inr
      have rest: "timingLoop env jid (i + 1) k1 t1 scs1 w1 = (r, w')"
        by (simp add: timingLoop.simps [of env jid i k t scs w])
      have tail: "run {T_assets_audio} 1 0 w1 None w'"
        using "1.IH" [OF True it [symmetric] _ _ _ rest] Inr res by simp
      have head: "run {T_assets_audio} 1 0 w None w1" using step by simp
      show ?thesis by (rule run_seq [OF head tail]) simp_all
    qed
  qed
qed

lemma run_audioStage:
  assumes "audioStage env jid st t0 ctx w = (r, w')"
  shows "run {T_assets_audio} 40 55 w (errOf r) w'"
proof -
  define w1 where "w1 = updateJob jid (noPatch\<lparr> p_status := Some J_generating_assets \<rparr>) w"
  define ctx1 where "ctx1 = reloadScenes jid ctx w1"
  have q1: "run {T_assets_audio} 1 0 w None w1"
    unfolding w1_def by (rule run_updateJob_quiet) (simp add: noPatch_def)
  show ?thesis
  proof (cases "\<exists>scs. ctx_scenes ctx1 = Some scs \<and> truthy (ctx_script ctx1) \<and> 0 < length scs")
    case False
    with assms have eq: "errOf r = None" "w' = w1"
      by (auto simp: audioStage_def Let_def w1_def ctx1_def split: option.splits if_splits)
    show ?thesis unfolding eq by (rule run_weaken [OF q1]) simp_all
  next
    case True
    then obtain scs where scs: "ctx_scenes ctx1 = Some scs" "truthy (ctx_script ctx1)" "0 < length scs"
      by blast
    define voice where "voice = (if truthy (audio_voiceModel st)
                             then orElse (audio_voiceModel st) [] else ''nova'')"
    have body: "andThen (audioLoop env jid t0 voice 0 scs) (\<lambda>withAudio.
                   andThen (timingLoop env jid 0 0 0 withAudio) (\<lambda>(updatedScenes, totalTime) w2.
                     (Inr (ctx1\<lparr> ctx_scenes := Some updatedScenes \<rparr>),
                      updateJob jid (noPatch\<lparr> p_scenes := Some updatedScenes \<rparr>) w2))) w1 = (r, w')"
      using assms scs
      by (simp add: audioStage_def Let_def w1_def [symmetric] ctx1_def [symmetric] voice_def)
    have inner: "run {T_assets_audio} 40 55 w1 (errOf r) w'"
    proof (rule run_andThen [OF body, where ?lo1.0 = 40 and ?hi1.0 = 55 and ?lo2.0 = 1 and ?hi2.0 = 0])
      fix r1 :: "string + Scene list" and wa
      assume "audioLoop env jid t0 voice 0 scs w1 = (r1, wa)"
      from run_audioLoop [OF this] show "run {T_assets_audio} 40 55 w1 (errOf r1) wa" by simp
    next
      fix x wa wb and r2 :: "string + JobContext"
      assume t: "andThen (timingLoop env jid 0 0 0 x) (\<lambda>(updatedScenes, totalTime) w2.
                     (Inr (ctx1\<lparr> ctx_scenes := Some updatedScenes \<rparr>),
                      updateJob jid (noPatch\<lparr> p_scenes := Some updatedScenes \<rparr>) w2)) wa = (r2, wb)"
      show "run {T_assets_audio} 1 0 wa (errOf r2) wb"
      proof (rule run_andThen [OF t, where ?lo1.0 = 1 and ?hi1.0 = 0 and ?lo2.0 = 1 and ?hi2.0 = 0])
        fix r1 :: "string + Scene list \<times> rat" and wc
        assume "timingLoop env jid 0 0 0 x wa = (r1, wc)"
        from run_timingLoop [OF this] show "run {T_assets_audio} 1 0 wa (errOf r1) wc"
          by (rule run_any_err)
      next
        fix y wc wd and r3 :: "string + JobContext"
        assume "(case y of (updatedScenes, totalTime) \<Rightarrow> \<lambda>w2.
                     (Inr (ctx1\<lparr> ctx_scenes := Some updatedScenes \<rparr>),
                      updateJob jid (noPatch\<lparr> p_scenes := Some updatedScenes \<rparr>) w2)) wc
                  = (r3 :: string + JobContext, wd)"
        then show "run {T_assets_audio} 1 0 wc (errOf r3) wd"
          by (cases y) (auto simp: run_def trace_updateJob progressEvent_def noPatch_def)
      qed simp_all
    qed simp_all
    show ?thesis by (rule run_seq [OF q1 inner]) simp_all
  qed
qed

lemma run_renderVideo:
  "renderVideo env jid scs w = (r, w') \<Longrightarrow> run {T_video} 1 0 w None w'"
  by (auto simp: renderVideo_def Let_def run_def okEvents_def split: sum.splits)

lemma run_videoStage:
  "videoStage env jid st ctx w = (r, w') \<Longrightarrow> run {T_video} 95 95 w (errOf r) w'"
  by (auto simp: videoStage_def andThen_def renderVideo_def Let_def
      run_def okEvents_def trace_updateJob progressEvent_def noPatch_def
      split: sum.splits prod.splits if_splits option.splits)

lemma run_captionStage:
  "captionStage env jid st ctx w = (r, w') \<Longrightarrow> run {T_caption} 100 100 w (errOf r) w'"
  by (auto simp: captionStage_def Let_def
      run_def okEvents_def trace_updateJob progressEvent_def noPatch_def
      split: sum.splits prod.splits if_splits option.splits)

section \<open>Step rows across a run\<close>

text \<open>
  \<open>stepRow w jobId ty\<close> is the row \<^verbatim>\<open>job.steps.find(s => s.stepType === stepType)\<close> finds;
  a stage is pending when that row exists and is not \<^verbatim>\<open>completed\<close>.  \<open>piped\<close> is \<open>run\<close> for
  computations that update step rows: the rows of the stage types in \<open>keep\<close> are left
  as they were, and the table keeps its primary keys.
\<close>

definition stepRow :: "World \<Rightarrow> string \<Rightarrow> StepType \<Rightarrow> JobStep option" where
  "stepRow w jobId ty = find (\<lambda>s. stepType s = ty) (getJobSteps jobId w)"

definition pending :: "World \<Rightarrow> string \<Rightarrow> StepType \<Rightarrow> bool" where
  "pending w jobId ty =
     (case stepRow w jobId ty of None \<Rightarrow> False | Some s \<Rightarrow> step_status s \<noteq> S_completed)"

lemma runStep_skip:
  "\<not> pending w jobId ty \<Longrightarrow> runStep jobId ty fn ctx w = (Inr ctx, w)"
  by (auto simp: runStep_def pending_def stepRow_def getJob_def split: option.splits)

lemma find_filter_map_other:
  assumes "\<And>s. s \<in> set rows \<Longrightarrow> step_id s = sid \<Longrightarrow> stepType s \<noteq> ty'"
    and "\<And>s. stepType (f s) = stepType s \<and> step_jobId (f s) = step_jobId s"
  shows "find (\<lambda>s. stepType s = ty')
           (filter (\<lambda>s. step_jobId s = jid) (map (\<lambda>s. if step_id s = sid then f s else s) rows))
         = find (\<lambda>s. stepType s = ty') (filter (\<lambda>s. step_jobId s = jid) rows)"
  using assms(1)
  by (induction rows) (auto simp: assms(2))

lemma find_filter_map_same:
  assumes "\<And>s. stepType (g s) = stepType s \<and> step_jobId (g s) = step_jobId s"
  shows "find (\<lambda>s. stepType s = ty) (filter (\<lambda>s. step_jobId s = jid) (map g rows))
         = map_option g (find (\<lambda>s. stepType s = ty) (filter (\<lambda>s. step_jobId s = jid) rows))"
  by (induction rows) (auto simp: assms)

lemma find_Some_set: "find P xs = Some x \<Longrightarrow> x \<in> set xs \<and> P x"
  by (induction xs) (auto split: if_splits)

lemma stepRow_updateJobStep_other:
  assumes d: "distinct (map step_id (jobSteps w))"
    and st: "stepRow w jobId ty = Some st"
    and ne: "ty' \<noteq> ty"
    and f: "\<And>s. stepType (f s) = stepType s \<and> step_jobId (f s) = step_jobId s"
  shows "stepRow (updateJobStep (step_id st) f w) jobId ty' = stepRow w jobId ty'"
proof -
  have mem: "st \<in> set (jobSteps w)" "stepType st = ty"
    using find_Some_set [OF st [unfolded stepRow_def getJobSteps_def]] by auto
  have inj: "inj_on step_id (set (jobSteps w))" using d by (simp add: distinct_map)
  have "\<And>s. s \<in> set (jobSteps w) \<Longrightarrow> step_id s = step_id st \<Longrightarrow> stepType s \<noteq> ty'"
    using inj mem ne by (auto dest: inj_onD)
  from find_filter_map_other [OF this f]
  show ?thesis by (simp add: stepRow_def getJobSteps_def updateJobStep_def)
qed

lemma stepRow_updateJobStep_same:
  assumes st: "stepRow w jobId ty = Some st"
    and f: "\<And>s. stepType (f s) = stepType s \<and> step_jobId (f s) = step_jobId s"
  shows "stepRow (updateJobStep (step_id st) f w) jobId ty = Some (f st)"
proof -
  have "\<And>s. stepType ((\<lambda>s. if step_id s = step_id st then f s else s) s) = stepType s \<and>
            step_jobId ((\<lambda>s. if step_id s = step_id st then f s else s) s) = step_jobId s"
    using f by simp
  from find_filter_map_same [of "\<lambda>s. if step_id s = step_id st then f s else s", OF this]
  show ?thesis using st by (simp add: stepRow_def getJobSteps_def updateJobStep_def)
qed

lemma distinct_updateJobStep:
  assumes "\<And>s. step_id (f s) = step_id s"
  shows "map step_id (jobSteps (updateJobStep sid f w)) = map step_id (jobSteps w)"
  by (simp add: updateJobStep_def assms comp_def cong: map_cong)

lemma updateJobStep_simps [simp]:
  "trace (updateJobStep sid f w) = trace w"
  "jobs (updateJobStep sid f w) = jobs w"
  "clock (updateJobStep sid f w) = clock w"
  by (simp_all add: updateJobStep_def)

lemma saveStepTiming_simps [simp]:
  "trace (saveStepTiming c ty d w) = trace w"
  "jobs (saveStepTiming c ty d w) = jobs w"
  "jobSteps (saveStepTiming c ty d w) = jobSteps w"
  by (simp_all add: saveStepTiming_def setSetting_def getSetting_def Let_def split: option.splits)

lemma stepRow_cong: "jobSteps w' = jobSteps w \<Longrightarrow> stepRow w' jid ty = stepRow w jid ty"
  by (simp add: stepRow_def getJobSteps_def)


definition piped ::
  "StepType set \<Rightarrow> int \<Rightarrow> int \<Rightarrow> string \<Rightarrow> StepType set \<Rightarrow> World \<Rightarrow> string option \<Rightarrow> World \<Rightarrow> bool" where
  "piped S lo hi jobId keep w err w' =
     ((\<exists>evs. trace w' = trace w @ evs \<and> okEvents S lo hi err evs) \<and>
      (\<forall>jid. (jobs w' jid = None) = (jobs w jid = None)) \<and>
      (\<forall>ty \<in> keep. stepRow w' jobId ty = stepRow w jobId ty) \<and>
      map step_id (jobSteps w') = map step_id (jobSteps w))"

lemma run_piped:
  assumes "run S lo hi w err w'"
  shows "piped S lo hi jobId keep w err w'"
proof -
  have js: "jobSteps w' = jobSteps w" using assms by (simp add: run_def)
  have "\<forall>ty \<in> keep. stepRow w' jobId ty = stepRow w jobId ty"
    using stepRow_cong [OF js] by simp
  then show ?thesis using assms js unfolding run_def piped_def by simp
qed

lemma piped_refl [simp]: "piped S lo hi jobId keep w err w"
  by (simp add: piped_def)

lemma piped_seq:
  assumes "piped S lo1 hi1 jobId keep w None w1" and "piped S lo2 hi2 jobId keep w1 err w2"
    and "lo1 \<le> hi1 \<Longrightarrow> lo \<le> lo1 \<and> hi1 \<le> hi"
    and "lo2 \<le> hi2 \<Longrightarrow> lo \<le> lo2 \<and> hi2 \<le> hi"
    and "lo1 \<le> hi1 \<Longrightarrow> lo2 \<le> hi2 \<Longrightarrow> hi1 \<le> lo2"
  shows "piped S lo hi jobId keep w err w2"
proof -
  obtain e1 where e1: "trace w1 = trace w @ e1" "okEvents S lo1 hi1 None e1"
    using assms(1) by (auto simp: piped_def)
  obtain e2 where e2: "trace w2 = trace w1 @ e2" "okEvents S lo2 hi2 err e2"
    using assms(2) by (auto simp: piped_def)
  have "okEvents S lo hi err (e1 @ e2)"
    using okEvents_append [OF e1(2) e2(2)] assms(3,4,5) by blast
  moreover have "trace w2 = trace w @ (e1 @ e2)" using e1 e2 by simp
  moreover have "\<forall>jid. (jobs w2 jid = None) = (jobs w jid = None)"
    using assms(1,2) by (simp add: piped_def)
  moreover have "\<forall>ty \<in> keep. stepRow w2 jobId ty = stepRow w jobId ty"
    using assms(1,2) by (simp add: piped_def)
  moreover have "map step_id (jobSteps w2) = map step_id (jobSteps w)"
    using assms(1,2) by (simp add: piped_def)
  ultimately show ?thesis unfolding piped_def by blast
qed

lemma piped_weaken:
  assumes "piped S lo1 hi1 jobId keep w err w'" and "S \<subseteq> S'" and "keep' \<subseteq> keep"
    and "lo1 \<le> hi1 \<Longrightarrow> lo \<le> lo1 \<and> hi1 \<le> hi"
  shows "piped S' lo hi jobId keep' w err w'"
  using assms okEvents_weaken [OF _ assms(2), of lo1 hi1 err _ lo hi]
  unfolding piped_def by blast

lemma runStep_unfold:
  assumes "jobs w jobId = Some job" and "stepRow w jobId ty = Some st"
    and "step_status st \<noteq> S_completed"
    and "fn ctx ((updateJobStep (step_id st)
                   (\<lambda>s. s\<lparr> step_status := S_running, startedAt := Some (clock w) \<rparr>) w)
                 \<lparr> trace := trace w @ [Invoke ty] \<rparr>) = (r3, w3)"
  shows "runStep jobId ty fn ctx w =
      (case r3 of
         Inr ctx' \<Rightarrow>
           (Inr ctx', saveStepTiming (contentType job) ty (clock w3 - clock w)
              (updateJobStep (step_id st)
                 (\<lambda>s. s\<lparr> step_status := S_completed, finishedAt := Some (clock w3),
                          durationMs := Some (clock w3 - clock w) \<rparr>) w3))
       | Inl e \<Rightarrow>
           (Inl e, updateJobStep (step_id st)
                     (\<lambda>s. s\<lparr> step_status := S_failed, finishedAt := Some (clock w3),
                              message := Some e \<rparr>) w3))"
proof -
  have g: "getJob jobId w = Some (job, getJobSteps jobId w)"
    using assms(1) by (simp add: getJob_def)
  have f: "find (\<lambda>s. stepType s = ty) (getJobSteps jobId w) = Some st"
    using assms(2) by (simp add: stepRow_def)
  show ?thesis
    unfolding runStep_def g
    using f assms(3,4) by (cases r3) (simp_all add: Let_def)
qed

lemma runStep_piped:
  assumes fn: "\<And>c v r1 v'. fn c v = (r1, v') \<Longrightarrow> run {ty} lo hi v (errOf r1) v'"
    and rs: "runStep jobId ty fn ctx w = (r, w')"
    and d: "distinct (map step_id (jobSteps w))"
  shows "piped (if pending w jobId ty then {ty} else {}) lo hi jobId (UNIV - {ty}) w (errOf r) w'
         \<and> (\<forall>e. r = Inl e \<longrightarrow>
              (\<exists>s. stepRow w' jobId ty = Some s \<and> step_status s = S_failed \<and> message s = Some e))"
proof (cases "pending w jobId ty \<and> jobs w jobId \<noteq> None")
  case False
  have "runStep jobId ty fn ctx w = (Inr ctx, w)"
  proof (cases "pending w jobId ty")
    case False
    then show ?thesis by (rule runStep_skip)
  next
    case True
    with \<open>\<not> (pending w jobId ty \<and> jobs w jobId \<noteq> None)\<close> have "jobs w jobId = None" by simp
    then show ?thesis by (simp add: runStep_def getJob_def)
  qed
  with rs have "r = Inr ctx" "w' = w" by simp_all
  then show ?thesis by simp
next
  case True
  then obtain job st where job: "jobs w jobId = Some job"
    and st: "stepRow w jobId ty = Some st" and nc: "step_status st \<noteq> S_completed"
    by (auto simp: pending_def split: option.splits)
  define f1 where "f1 = (\<lambda>s :: JobStep. s\<lparr> step_status := S_running, startedAt := Some (clock w) \<rparr>)"
  define w2 where "w2 = (updateJobStep (step_id st) f1 w)\<lparr> trace := trace w @ [Invoke ty] \<rparr>"
  have F1: "\<And>s. stepType (f1 s) = stepType s \<and> step_jobId (f1 s) = step_jobId s"
    and I1: "\<And>s. step_id (f1 s) = step_id s"
    by (simp_all add: f1_def)
  have js2: "jobSteps w2 = jobSteps (updateJobStep (step_id st) f1 w)" by (simp add: w2_def)
  obtain r3 w3 where f3: "fn ctx w2 = (r3, w3)" by fastforce
  note run3 = fn [OF f3]
  have ids1: "map step_id (jobSteps w2) = map step_id (jobSteps w)"
    unfolding js2 by (rule distinct_updateJobStep [OF I1])
  have row1: "stepRow w2 jobId ty = Some (f1 st)"
    using stepRow_updateJobStep_same [OF st F1] stepRow_cong [OF js2] by simp
  have keep1: "\<forall>ty' \<in> UNIV - {ty}. stepRow w2 jobId ty' = stepRow w jobId ty'"
  proof
    fix ty' assume "ty' \<in> UNIV - {ty}"
    then have ne: "ty' \<noteq> ty" by simp
    show "stepRow w2 jobId ty' = stepRow w jobId ty'"
      using stepRow_updateJobStep_other [OF d st ne F1] stepRow_cong [OF js2] by simp
  qed
  have tr2: "trace w2 = trace w @ [Invoke ty]" and jb2: "jobs w2 = jobs w"
    by (simp_all add: w2_def)
  have ok1: "okEvents {ty} 1 0 None [Invoke ty]" by (simp add: okEvents_def)
  have p1: "piped {ty} 1 0 jobId (UNIV - {ty}) w None w2"
    unfolding piped_def using ids1 keep1 tr2 jb2 ok1 by simp
  have p3: "piped {ty} lo hi jobId (UNIV - {ty}) w2 (errOf r3) w3"
    by (rule run_piped [OF run3])
  have p13: "piped {ty} lo hi jobId (UNIV - {ty}) w (errOf r3) w3"
    by (rule piped_seq [OF p1 p3]) simp_all
  have steps3: "jobSteps w3 = jobSteps w2" using run3 by (simp add: run_def)
  have d3: "distinct (map step_id (jobSteps w3))" using d ids1 steps3 by simp
  have row3: "stepRow w3 jobId ty = Some (f1 st)"
    using row1 stepRow_cong [OF steps3] by simp
  have sid: "step_id (f1 st) = step_id st" by (rule I1)
  have unfold: "runStep jobId ty fn ctx w =
      (case r3 of
         Inr ctx' \<Rightarrow>
           (Inr ctx', saveStepTiming (contentType job) ty (clock w3 - clock w)
              (updateJobStep (step_id st)
                 (\<lambda>s. s\<lparr> step_status := S_completed, finishedAt := Some (clock w3),
                          durationMs := Some (clock w3 - clock w) \<rparr>) w3))
       | Inl e \<Rightarrow>
           (Inl e, updateJobStep (step_id st)
                     (\<lambda>s. s\<lparr> step_status := S_failed, finishedAt := Some (clock w3),
                              message := Some e \<rparr>) w3))"
    by (rule runStep_unfold [where fn = fn and ctx = ctx, OF job st nc f3 [unfolded w2_def f1_def]])
  show ?thesis
  proof (cases r3)
    case (Inr ctx')
    define f4 where "f4 = (\<lambda>s :: JobStep. s\<lparr> step_status := S_completed, finishedAt := Some (clock w3),
                          durationMs := Some (clock w3 - clock w) \<rparr>)"
    define w4 where "w4 = updateJobStep (step_id (f1 st)) f4 w3"
    have F4: "\<And>s. stepType (f4 s) = stepType s \<and> step_jobId (f4 s) = step_jobId s"
      and I4: "\<And>s. step_id (f4 s) = step_id s"
      by (simp_all add: f4_def)
    have eq: "r = Inr ctx'" "w' = saveStepTiming (contentType job) ty (clock w3 - clock w) w4"
      using rs unfold Inr by (simp_all add: w4_def f4_def sid)
    have js': "jobSteps w' = jobSteps w4" by (simp add: eq)
    have keep4: "\<forall>ty' \<in> UNIV - {ty}. stepRow w' jobId ty' = stepRow w3 jobId ty'"
    proof
      fix ty' assume "ty' \<in> UNIV - {ty}"
      then have ne: "ty' \<noteq> ty" by simp
      show "stepRow w' jobId ty' = stepRow w3 jobId ty'"
        using stepRow_updateJobStep_other [OF d3 row3 ne F4] stepRow_cong [OF js']
        by (simp add: w4_def)
    qed
    have ids4: "map step_id (jobSteps w') = map step_id (jobSteps w3)"
      unfolding js' w4_def by (rule distinct_updateJobStep [OF I4])
    have tr4: "trace w' = trace w3" and jb4: "jobs w' = jobs w3" by (simp_all add: eq w4_def)
    have p4: "piped {ty} 1 0 jobId (UNIV - {ty}) w3 None w'"
      unfolding piped_def using keep4 ids4 tr4 jb4 by simp
    have p13': "piped {ty} lo hi jobId (UNIV - {ty}) w None w3" using p13 Inr by simp
    have "piped {ty} lo hi jobId (UNIV - {ty}) w (errOf r) w'"
      unfolding eq(1) errOf_simps
      by (rule piped_seq [OF p13' p4]) simp_all
    with True eq show ?thesis by simp
  next
    case (Inl e)
    define f4 where "f4 = (\<lambda>s :: JobStep. s\<lparr> step_status := S_failed, finishedAt := Some (clock w3),
                              message := Some e \<rparr>)"
    have F4: "\<And>s. stepType (f4 s) = stepType s \<and> step_jobId (f4 s) = step_jobId s"
      and I4: "\<And>s. step_id (f4 s) = step_id s"
      by (simp_all add: f4_def)
    have eq: "r = Inl e" "w' = updateJobStep (step_id (f1 st)) f4 w3"
      using rs unfold Inl by (simp_all add: f4_def sid)
    have keep4: "\<forall>ty' \<in> UNIV - {ty}. stepRow w' jobId ty' = stepRow w3 jobId ty'"
    proof
      fix ty' assume "ty' \<in> UNIV - {ty}"
      then have ne: "ty' \<noteq> ty" by simp
      show "stepRow w' jobId ty' = stepRow w3 jobId ty'"
        using stepRow_updateJobStep_other [OF d3 row3 ne F4] by (simp add: eq)
    qed
    have ids4: "map step_id (jobSteps w') = map step_id (jobSteps w3)"
      unfolding eq by (rule distinct_updateJobStep [OF I4])
    have row4: "stepRow w' jobId ty = Some (f4 (f1 st))"
      using stepRow_updateJobStep_same [OF row3 F4] by (simp add: eq)
    have tr4: "trace w' = trace w3" and jb4: "jobs w' = jobs w3" by (simp_all add: eq)
    have p4: "piped {ty} lo hi jobId (UNIV - {ty}) w (errOf r) w'"
      using p13 keep4 ids4 tr4 jb4 Inl unfolding piped_def eq(1) by simp
    have "step_status (f4 (f1 st)) = S_failed \<and> message (f4 (f1 st)) = Some e"
      by (simp add: f4_def)
    with True eq(1) row4 p4 show ?thesis by simp
  qed
qed

section \<open>The pipeline as a list of stages\<close>

text \<open>
  The \<^verbatim>\<open>try\<close> block of \<^verbatim>\<open>processJob\<close> repeats one pattern five times: poll the flag, then
  \<^verbatim>\<open>runStep\<close> the stage.  \<open>runStages\<close> is that pattern over a list of stage types, and
  \<open>processJob_try_stages\<close> shows the source's block to be \<open>runStages\<close> over the five types
  in pipeline order.  \<open>stageLo\<close> and \<open>stageHi\<close> bound the progress values a stage writes;
  \<open>newEvents w w'\<close> is what a run from \<open>w\<close> to \<open>w'\<close> added to the trace.
\<close>

fun stageFn :: "Env \<Rightarrow> string \<Rightarrow> JobSettings \<Rightarrow> nat \<Rightarrow> StepType \<Rightarrow> JobContext \<Rightarrow> JobContext io" where
  "stageFn env jobId st t0 T_script = scriptStage env jobId st t0"
| "stageFn env jobId st t0 T_assets_visual = visualStage env jobId st t0"
| "stageFn env jobId st t0 T_assets_audio = audioStage env jobId st t0"
| "stageFn env jobId st t0 T_video = videoStage env jobId st"
| "stageFn env jobId st t0 T_caption = captionStage env jobId st"

fun runStages ::
  "Env \<Rightarrow> string \<Rightarrow> JobSettings \<Rightarrow> nat \<Rightarrow> StepType list \<Rightarrow> JobContext \<Rightarrow> JobContext io" where
  "runStages env jobId st t0 [] ctx = (\<lambda>w. (Inr ctx, w))"
| "runStages env jobId st t0 (ty # tys) ctx =
     andThen (throwIfCancelled jobId) (\<lambda>u.
     andThen (runStep jobId ty (stageFn env jobId st t0 ty) ctx)
       (runStages env jobId st t0 tys))"

definition pipelineOrder :: "StepType list" where
  "pipelineOrder = [T_script, T_assets_visual, T_assets_audio, T_video, T_caption]"

fun stageLo :: "StepType \<Rightarrow> int" where
  "stageLo T_script = 10"
| "stageLo T_assets_visual = 10"
| "stageLo T_assets_audio = 40"
| "stageLo T_video = 95"
| "stageLo T_caption = 100"

fun stageHi :: "StepType \<Rightarrow> int" where
  "stageHi T_script = 10"
| "stageHi T_assets_visual = 40"
| "stageHi T_assets_audio = 55"
| "stageHi T_video = 95"
| "stageHi T_caption = 100"

fun rank :: "StepType \<Rightarrow> nat" where
  "rank T_script = 0"
| "rank T_assets_visual = 1"
| "rank T_assets_audio = 2"
| "rank T_video = 3"
| "rank T_caption = 4"

definition newEvents :: "World \<Rightarrow> World \<Rightarrow> Event list" where
  "newEvents w w' = drop (length (trace w)) (trace w')"

lemma andThen_assoc:
  "andThen (andThen m f) g = andThen m (\<lambda>x. andThen (f x) g)"
  by (auto simp: andThen_def fun_eq_iff split: prod.splits sum.splits)

lemma andThen_return [simp]: "andThen (\<lambda>w. (Inr x, w)) f = f x"
  by (simp add: andThen_def fun_eq_iff)

lemma processJob_try_stages:
  "processJob_try env jobId t0 w =
     (case getJob jobId w of
        None \<Rightarrow> (Inr (), w)
      | Some (job, steps) \<Rightarrow>
          let st = settings job;
              estimatedScenes = (case visual_scenesPerMinute st of
                                   None \<Rightarrow> 6
                                 | Some n \<Rightarrow> if n = 0 then 6 else int n);
              initialETA = STEP_TIME_ESTIMATES T_script
                + estimatedScenes * STEP_TIME_ESTIMATES T_assets_visual
                + estimatedScenes * STEP_TIME_ESTIMATES T_assets_audio
                + estimatedScenes * STEP_TIME_ESTIMATES T_video div 5
                + STEP_TIME_ESTIMATES T_caption;
              w1 = updateJob jobId (noPatch\<lparr>
                     p_status := Some J_running,
                     p_progressPercent := Some 0,
                     p_etaSeconds := Some (Some initialETA) \<rparr>) w;
              w2 = updateLastProgress jobId w1
          in andThen (runStages env jobId st t0 pipelineOrder
                        \<lparr> ctx_script = None, ctx_scenes = None \<rparr>)
               (\<lambda>ctx5 w3.
                  (Inr (), updateJob jobId (noPatch\<lparr>
                             p_status := Some J_completed,
                             p_progressPercent := Some 100,
                             p_etaSeconds := Some (Some 0) \<rparr>) w3)) w2)"
  by (simp add: processJob_try_def pipelineOrder_def andThen_assoc Let_def
      split: option.splits prod.splits)

lemma stageFn_run:
  "stageFn env jobId st t0 ty c v = (r1, v') \<Longrightarrow> run {ty} (stageLo ty) (stageHi ty) v (errOf r1) v'"
  by (cases ty)
     (auto dest: run_scriptStage run_visualStage run_audioStage run_videoStage run_captionStage)

lemma stage_bounds: "stageLo ty \<le> stageHi ty" "stageHi ty \<le> 100" "10 \<le> stageLo ty"
  by (cases ty; simp)+

lemma rank_order: "rank a < rank b \<Longrightarrow> stageHi a \<le> stageLo b"
  by (cases a; cases b; simp)


lemma pending_cong: "stepRow w' jobId ty = stepRow w jobId ty \<Longrightarrow> pending w' jobId ty = pending w jobId ty"
  by (simp add: pending_def)

lemma run_throwIfCancelled_piped:
  "throwIfCancelled jobId w = (r, w') \<Longrightarrow> piped S 1 0 jobId keep w (errOf r) w'"
  by (rule run_piped [OF run_throwIfCancelled])

lemma throwIfCancelled_steps:
  "throwIfCancelled jobId w = (r, w') \<Longrightarrow> jobSteps w' = jobSteps w"
  using run_throwIfCancelled [of jobId w r w' "{}" 1 0] by (simp add: run_def)

lemma runStep_stage_piped:
  assumes rs: "runStep jobId ty (stageFn env jobId st t0 ty) ctx w = (r, w')"
    and d: "distinct (map step_id (jobSteps w))"
  shows "piped (if pending w jobId ty then {ty} else {}) (stageLo ty) (stageHi ty)
           jobId (UNIV - {ty}) w (errOf r) w'
         \<and> (\<forall>e. r = Inl e \<longrightarrow>
              (\<exists>s. stepRow w' jobId ty = Some s \<and> step_status s = S_failed \<and> message s = Some e))"
proof (rule runStep_piped [where fn = "stageFn env jobId st t0 ty", OF _ rs d])
  fix c v r1 v'
  assume "stageFn env jobId st t0 ty c v = (r1, v')"
  then show "run {ty} (stageLo ty) (stageHi ty) v (errOf r1) v'" by (rule stageFn_run)
qed

lemma runStages_piped:
  assumes "runStages env jobId st t0 tys ctx w = (r, w')"
    and "distinct (map step_id (jobSteps w))"
    and "sorted_wrt (\<lambda>a b. rank a < rank b) tys"
    and "\<forall>ty \<in> set tys. b \<le> stageLo ty"
  shows "piped {ty \<in> set tys. pending w jobId ty} b 100 jobId (UNIV - set tys) w (errOf r) w'"
  using assms
proof (induction tys arbitrary: ctx w b r w')
  case Nil
  then show ?case by simp
next
  case (Cons ty tys)
  let ?S = "{t \<in> set (ty # tys). pending w jobId t}"
  let ?K = "UNIV - set (ty # tys)"
  obtain r0 w0 where poll: "throwIfCancelled jobId w = (r0, w0)" by fastforce
  have p0: "piped ?S 1 0 jobId ?K w (errOf r0) w0"
    by (rule run_throwIfCancelled_piped [OF poll])
  have js0: "jobSteps w0 = jobSteps w" by (rule throwIfCancelled_steps [OF poll])
  have d0: "distinct (map step_id (jobSteps w0))" using Cons.prems(2) js0 by simp
  have blo: "b \<le> stageLo ty" using Cons.prems(4) by simp
  show ?case
  proof (cases r0)
    case (Inl e)
    with Cons.prems(1) poll have eq: "r = Inl e" "w' = w0" by (simp_all add: andThen_def)
    have "piped ?S 1 0 jobId ?K w (errOf r) w'" using p0 Inl eq by simp
    then show ?thesis by (rule piped_weaken) simp_all
  next
    case (Inr u)
    obtain r1 w1 where rs: "runStep jobId ty (stageFn env jobId st t0 ty) ctx w0 = (r1, w1)"
      by fastforce
    have p1full: "piped (if pending w0 jobId ty then {ty} else {}) (stageLo ty) (stageHi ty)
                    jobId (UNIV - {ty}) w0 (errOf r1) w1"
      using runStep_stage_piped [OF rs d0] by blast
    have pen0: "pending w0 jobId ty = pending w jobId ty"
      by (rule pending_cong [OF stepRow_cong [OF js0]])
    have p1: "piped ?S (stageLo ty) (stageHi ty) jobId ?K w0 (errOf r1) w1"
      by (rule piped_weaken [OF p1full]) (auto simp: pen0)
    have p0': "piped ?S 1 0 jobId ?K w None w0" using p0 Inr by simp
    have p01: "piped ?S b (stageHi ty) jobId ?K w (errOf r1) w1"
      by (rule piped_seq [OF p0' p1]) (use blo stage_bounds(1) [of ty] in simp_all)
    show ?thesis
    proof (cases r1)
      case (Inl e)
      with Cons.prems(1) poll Inr rs have eq: "r = Inl e" "w' = w1"
        by (simp_all add: andThen_def)
      have "piped ?S b (stageHi ty) jobId ?K w (errOf r) w'" using p01 Inl eq by simp
      then show ?thesis
        by (rule piped_weaken) (use stage_bounds(2) [of ty] in simp_all)
    next
      case (Inr ctx1)
      with Cons.prems(1) poll \<open>r0 = Inr u\<close> rs
      have rest: "runStages env jobId st t0 tys ctx1 w1 = (r, w')"
        by (simp add: andThen_def)
      have ids1: "map step_id (jobSteps w1) = map step_id (jobSteps w0)"
        using p1full by (simp add: piped_def)
      have d1: "distinct (map step_id (jobSteps w1))" using d0 ids1 by simp
      have sorted: "sorted_wrt (\<lambda>a b. rank a < rank b) tys"
        and later: "\<forall>t \<in> set tys. rank ty < rank t"
        using Cons.prems(3) by simp_all
      have bnd: "\<forall>t \<in> set tys. stageHi ty \<le> stageLo t"
        using later rank_order by blast
      have ih: "piped {t \<in> set tys. pending w1 jobId t} (stageHi ty) 100 jobId (UNIV - set tys)
                  w1 (errOf r) w'"
        by (rule Cons.IH [OF rest d1 sorted bnd])
      have notin: "ty \<notin> set tys" using later by auto
      have rows: "\<forall>t \<in> set tys. stepRow w1 jobId t = stepRow w jobId t"
      proof
        fix t assume t: "t \<in> set tys"
        then have "t \<in> UNIV - {ty}" using notin by auto
        then have "stepRow w1 jobId t = stepRow w0 jobId t"
          using p1full by (simp add: piped_def)
        then show "stepRow w1 jobId t = stepRow w jobId t"
          using stepRow_cong [OF js0] by simp
      qed
      have sub: "{t \<in> set tys. pending w1 jobId t} \<subseteq> ?S"
        using rows by (auto simp: pending_def)
      have p2: "piped ?S (stageHi ty) 100 jobId ?K w1 (errOf r) w'"
        by (rule piped_weaken [OF ih sub]) auto
      have p01': "piped ?S b (stageHi ty) jobId ?K w None w1" using p01 Inr by simp
      show ?thesis
        by (rule piped_seq [OF p01' p2])
           (use blo stage_bounds(1) [of ty] stage_bounds(2) [of ty] in simp_all)
    qed
  qed
qed


lemma newEvents_append [simp]: "trace w' = trace w @ evs \<Longrightarrow> newEvents w w' = evs"
  by (simp add: newEvents_def)

lemma pipelineOrder_sorted: "sorted_wrt (\<lambda>a b. rank a < rank b) pipelineOrder"
  by (simp add: pipelineOrder_def)

lemma pipelineOrder_set: "set pipelineOrder = UNIV"
proof -
  have "\<And>t. t \<in> set pipelineOrder" by (case_tac t) (simp_all add: pipelineOrder_def)
  then show ?thesis by auto
qed

lemma processJob_try_piped:
  assumes t: "processJob_try env jobId t0 w = (r, w')"
    and d: "distinct (map step_id (jobSteps w))"
  shows "piped {ty. pending w jobId ty} 0 100 jobId {} w (errOf r) w'"
proof (cases "jobs w jobId")
  case None
  with t have "r = Inr ()" "w' = w" by (simp_all add: processJob_try_def getJob_def)
  then show ?thesis by simp
next
  case (Some job)
  let ?S = "{ty. pending w jobId ty}"
  define st where "st = settings job"
  define eta where "eta = STEP_TIME_ESTIMATES T_script
                + (case visual_scenesPerMinute st of
                                   None \<Rightarrow> 6
                                 | Some n \<Rightarrow> if n = 0 then 6 else int n) * STEP_TIME_ESTIMATES T_assets_visual
                + (case visual_scenesPerMinute st of
                                   None \<Rightarrow> 6
                                 | Some n \<Rightarrow> if n = 0 then 6 else int n) * STEP_TIME_ESTIMATES T_assets_audio
                + (case visual_scenesPerMinute st of
                                   None \<Rightarrow> 6
                                 | Some n \<Rightarrow> if n = 0 then 6 else int n) * STEP_TIME_ESTIMATES T_video div 5
                + STEP_TIME_ESTIMATES T_caption"
  define w2 where "w2 = updateLastProgress jobId (updateJob jobId (noPatch\<lparr>
                     p_status := Some J_running,
                     p_progressPercent := Some 0,
                     p_etaSeconds := Some (Some eta) \<rparr>) w)"
  define fin where "fin = (\<lambda>(ctx5 :: JobContext) w3.
                  (Inr () :: string + unit, updateJob jobId (noPatch\<lparr>
                             p_status := Some J_completed,
                             p_progressPercent := Some 100,
                             p_etaSeconds := Some (Some 0) \<rparr>) w3))"
  have body: "andThen (runStages env jobId st t0 pipelineOrder
                        \<lparr> ctx_script = None, ctx_scenes = None \<rparr>) fin w2 = (r, w')"
    using t Some
    by (simp add: processJob_try_stages getJob_def Let_def st_def eta_def w2_def fin_def)
  have r0: "run ?S 0 0 w None w2"
    by (simp add: w2_def run_def okEvents_def trace_updateJob progressEvent_def noPatch_def)
  have js2: "jobSteps w2 = jobSteps w" by (simp add: w2_def)
  have d2: "distinct (map step_id (jobSteps w2))" using d js2 by simp
  have pen: "\<And>ty. pending w2 jobId ty = pending w jobId ty"
    by (rule pending_cong [OF stepRow_cong [OF js2]])
  have p0: "piped ?S 0 0 jobId {} w None w2" by (rule run_piped [OF r0])
  have inner: "piped ?S 10 100 jobId {} w2 (errOf r) w'"
  proof -
    obtain r1 w1 where rs: "runStages env jobId st t0 pipelineOrder
                        \<lparr> ctx_script = None, ctx_scenes = None \<rparr> w2 = (r1, w1)" by fastforce
    have lo: "\<forall>ty \<in> set pipelineOrder. 10 \<le> stageLo ty" using stage_bounds(3) by simp
    have p1full: "piped {ty \<in> set pipelineOrder. pending w2 jobId ty} 10 100 jobId
                    (UNIV - set pipelineOrder) w2 (errOf r1) w1"
      by (rule runStages_piped [OF rs d2 pipelineOrder_sorted lo])
    have p1: "piped ?S 10 100 jobId {} w2 (errOf r1) w1"
      by (rule piped_weaken [OF p1full]) (auto simp: pen)
    show ?thesis
    proof (cases r1)
      case (Inl e)
      with body rs have "r = Inl e" "w' = w1" by (simp_all add: andThen_def)
      with p1 Inl show ?thesis by simp
    next
      case (Inr ctx5)
      with body rs have eq: "r = Inr ()" "w' = updateJob jobId (noPatch\<lparr>
                             p_status := Some J_completed,
                             p_progressPercent := Some 100,
                             p_etaSeconds := Some (Some 0) \<rparr>) w1"
        by (simp_all add: andThen_def fin_def)
      have rf: "run ?S 100 100 w1 None w'"
        by (simp add: eq run_def okEvents_def trace_updateJob progressEvent_def noPatch_def)
      have p1': "piped ?S 10 100 jobId {} w2 None w1" using p1 Inr by simp
      show ?thesis unfolding eq(1) errOf_simps
        by (rule piped_seq [OF p1' run_piped [OF rf]]) simp_all
    qed
  qed
  show ?thesis by (rule piped_seq [OF p0 inner]) simp_all
qed


lemma acquireJobLock_frame:
  "acquireJobLock jobId owner ttl w = (b, w0) \<Longrightarrow>
     trace w0 = trace w \<and> jobSteps w0 = jobSteps w \<and> clock w0 = clock w
     \<and> (\<forall>k. (jobs w0 k = None) = (jobs w k = None))
     \<and> (\<not> b \<longrightarrow> w0 = w)"
  by (auto simp: acquireJobLock_def split: option.splits if_splits)

lemma releaseJobLock_simps [simp]:
  "trace (releaseJobLock jobId owner w) = trace w"
  "jobSteps (releaseJobLock jobId owner w) = jobSteps w"
  "(jobs (releaseJobLock jobId owner w) k = None) = (jobs w k = None)"
  "map_option status (jobs (releaseJobLock jobId owner w) k) = map_option status (jobs w k)"
  "map_option errorMessage (jobs (releaseJobLock jobId owner w) k)
     = map_option errorMessage (jobs w k)"
  "map_option progressPercent (jobs (releaseJobLock jobId owner w) k)
     = map_option progressPercent (jobs w k)"
  by (auto simp: releaseJobLock_def split: option.splits)

lemma updateJob_failed:
  "jobs w jobId \<noteq> None \<Longrightarrow>
     map_option status (jobs (updateJob jobId (noPatch\<lparr> p_status := Some J_failed,
          p_errorMessage := Some e \<rparr>) w) jobId) = Some J_failed
     \<and> map_option errorMessage (jobs (updateJob jobId (noPatch\<lparr> p_status := Some J_failed,
          p_errorMessage := Some e \<rparr>) w) jobId) = Some (Some e)
     \<and> trace (updateJob jobId (noPatch\<lparr> p_status := Some J_failed,
          p_errorMessage := Some e \<rparr>) w) = trace w"
  by (auto simp: updateJob_def applyPatch_def noPatch_def orElse_def orKeep_def)

text \<open>What one call of \<open>processJob\<close> adds to the trace, and how it ends when the \<open>try\<close>
  block throws.\<close>

lemma processJob_summary:
  assumes d: "distinct (map step_id (jobSteps w))"
  shows "\<exists>evs err.
           trace (processJob env jobId w) = trace w @ evs
           \<and> okEvents {ty. pending w jobId ty} 0 100 err evs
           \<and> (\<forall>e. err = Some e \<longrightarrow>
                 map_option status (jobs (processJob env jobId w) jobId) = Some J_failed
                 \<and> map_option errorMessage (jobs (processJob env jobId w) jobId) = Some (Some e))"
proof -
  obtain b w0 where acq: "acquireJobLock jobId (workerId env) LEASE_SECONDS w = (b, w0)"
    by fastforce
  note fr = acquireJobLock_frame [OF acq]
  show ?thesis
  proof (cases b)
    case False
    with acq fr have "processJob env jobId w = w" by (simp add: processJob_def)
    then have "trace (processJob env jobId w) = trace w @ []
        \<and> okEvents {ty. pending w jobId ty} 0 100 None []" by simp
    then show ?thesis by blast
  next
    case True
    obtain r w1 where t: "processJob_try env jobId (clock w0) w0 = (r, w1)" by fastforce
    have d0: "distinct (map step_id (jobSteps w0))" using d fr by simp
    have pen: "\<And>ty. pending w0 jobId ty = pending w jobId ty"
      using fr by (intro pending_cong stepRow_cong) simp
    have p: "piped {ty. pending w jobId ty} 0 100 jobId {} w0 (errOf r) w1"
      using processJob_try_piped [OF t d0] by (simp add: pen)
    then obtain evs where evs: "trace w1 = trace w @ evs"
      "okEvents {ty. pending w jobId ty} 0 100 (errOf r) evs"
      using fr by (auto simp: piped_def)
    have def1: "(jobs w1 jobId = None) = (jobs w jobId = None)"
      using p fr by (simp add: piped_def)
    have ex: "jobs w jobId \<noteq> None"
      using acq True by (auto simp: acquireJobLock_def split: option.splits)
    show ?thesis
    proof (cases r)
      case (Inr u)
      with acq True t have "processJob env jobId w = releaseJobLock jobId (workerId env) w1"
        by (simp add: processJob_def Let_def)
      with evs Inr have "trace (processJob env jobId w) = trace w @ evs
        \<and> okEvents {ty. pending w jobId ty} 0 100 None evs" by simp
      then show ?thesis by blast
    next
      case (Inl e)
      with acq True t have pj: "processJob env jobId w = releaseJobLock jobId (workerId env)
          (updateJob jobId (noPatch\<lparr> p_status := Some J_failed, p_errorMessage := Some e \<rparr>) w1)"
        by (simp add: processJob_def Let_def)
      have ne: "jobs w1 jobId \<noteq> None" using def1 ex by simp
      note uf = updateJob_failed [OF ne, of e]
      have "trace (processJob env jobId w) = trace w @ evs
        \<and> okEvents {ty. pending w jobId ty} 0 100 (Some e) evs
        \<and> map_option status (jobs (processJob env jobId w) jobId) = Some J_failed
        \<and> map_option errorMessage (jobs (processJob env jobId w) jobId) = Some (Some e)"
        using evs Inl uf by (simp add: pj)
      then show ?thesis by blast
    qed
  qed
qed

section \<open>The lease (C2)\<close>




section \<open>The integrity verifier's stream checks (C5)\<close>

text \<open>
  C5.  The claim: an output without the expected audio stream, or whose video stream is
  not 1080x1920, is reported invalid.  The verifier reads both facts from ffprobe and
  passes them on, but \<open>valid\<close> depends on neither: a 640x480 file with no audio stream,
  a positive duration and 50000 bytes is reported valid.
\<close>

theorem checkVideoIntegrity_accepts_wrong_streams:
  "checkVideoIntegrity exProbe (Some 50000) =
     \<lparr> valid = True, ic_error = None, ic_duration = Some (Num 12),
       hasAudio = Some False, ic_width = Some 640, ic_height = Some 480 \<rparr>"
  by (simp add: checkVideoIntegrity_def exProbe_def js_le0_def)

section \<open>The cancel route (C9)\<close>

text \<open>
  C9, as amended.  A cancel request for a job whose status is \<^verbatim>\<open>completed\<close> or \<^verbatim>\<open>failed\<close>
  is answered with 400 and changes nothing.  For any other existing job the route sets
  \<^verbatim>\<open>cancelRequested\<close> to true and, because every \<^verbatim>\<open>storage.updateJob\<close> stamps the row,
  \<^verbatim>\<open>updatedAt\<close> to now; status, lease columns, progress, settings, every other column
  of the job, every other job, and the step and asset tables stay as they were.
\<close>

theorem cancelJob_effect:
  assumes "jobs w jobId = Some j"
  shows "cancelJob jobId w =
     (if status j = J_completed \<or> status j = J_failed
      then (HttpResponse 400 ''Cannot cancel completed or failed job'', w)
      else (HttpResponse 200 ''Cancel requested'',
            w\<lparr> jobs := (jobs w)(jobId := Some (j\<lparr> cancelRequested := True,
                                                     updatedAt := clock w \<rparr>)) \<rparr>))"
  using assms
  by (simp add: cancelJob_def getJob_def updateJob_def applyPatch_def noPatch_def
      orElse_def orKeep_def)

theorem cancelJob_effect_witness:
  "cancelJob ''j1'' exWorld =
     (HttpResponse 200 ''Cancel requested'',
      exWorld\<lparr> jobs := (jobs exWorld)(''j1'' := Some (exJob\<lparr> cancelRequested := True,
                                                             updatedAt := 5 \<rparr>)) \<rparr>)"
  using cancelJob_effect [of exWorld "''j1''" exJob]
  by (simp add: exWorld_def exJob_def)

text \<open>The claim as stated fails on \<^verbatim>\<open>updatedAt\<close>: after a cancel request at time 5 the row
  of a job last updated at time 0 is not the old row with only the flag set.\<close>

theorem cancelJob_updatedAt_counterexample:
  "\<not> (jobs (snd (cancelJob ''j1'' exWorld)) ''j1'' = Some (exJob\<lparr> cancelRequested := True \<rparr>))"
  by (simp add: cancelJob_def getJob_def updateJob_def applyPatch_def noPatch_def
      orElse_def orKeep_def exWorld_def exJob_def)

lemma distinct_exStepRows [simp]: "distinct (map step_id (exStepRows a b c d e))"
  by (simp add: exStepRows_def mkStep_def)

section \<open>Resume skips completed steps (C1)\<close>

text \<open>
  C1.  When the step row of a stage is already \<^verbatim>\<open>completed\<close>, \<^verbatim>\<open>runStep\<close> returns at once:
  whatever the stage function is, the result is the unchanged context and the unchanged
  world, so the function is not invoked and neither the step nor the job is written.
  Hence a run of \<^verbatim>\<open>processJob\<close> over a job with some steps completed invokes none of
  their stage functions and makes no external call that belongs to them.  (Step ids are
  the table's primary key, so they are distinct.)
\<close>

theorem completed_step_skipped:
  assumes "stepRow w jobId ty = Some s" and "step_status s = S_completed"
    and "distinct (map step_id (jobSteps w))"
  shows "runStep jobId ty fn ctx w = (Inr ctx, w)
       \<and> Invoke ty \<notin> set (newEvents w (processJob env jobId w))
       \<and> (\<forall>c. Ext c \<in> set (newEvents w (processJob env jobId w)) \<longrightarrow> stage_of c \<noteq> ty)"
proof -
  have np: "\<not> pending w jobId ty" using assms(1,2) by (simp add: pending_def)
  obtain evs err where e: "trace (processJob env jobId w) = trace w @ evs"
    "okEvents {t. pending w jobId t} 0 100 err evs"
    using processJob_summary [OF assms(3)] by blast
  have n: "newEvents w (processJob env jobId w) = evs" using e(1) by simp
  show ?thesis using np e(2) unfolding n okEvents_def
    by (auto simp: runStep_skip)
qed

theorem completed_step_skipped_witness:
  "runStep ''j1'' T_script (scriptStage exEnv ''j1'' exSettings 0)
       \<lparr> ctx_script = None, ctx_scenes = None \<rparr> exCrashed
     = (Inr \<lparr> ctx_script = None, ctx_scenes = None \<rparr>, exCrashed)
   \<and> Invoke T_script \<notin> set (newEvents exCrashed (processJob exEnv ''j1'' exCrashed))
   \<and> Ext GenerateScript \<notin> set (newEvents exCrashed (processJob exEnv ''j1'' exCrashed))"
proof -
  have row: "stepRow exCrashed ''j1'' T_script = Some (mkStep ''s1'' T_script S_completed)"
    by (simp add: stepRow_def getJobSteps_def exCrashed_def exWorld_def exStepRows_def mkStep_def)
  have st: "step_status (mkStep ''s1'' T_script S_completed) = S_completed"
    by (simp add: mkStep_def)
  have d: "distinct (map step_id (jobSteps exCrashed))"
    by (simp add: exCrashed_def exWorld_def)
  show ?thesis
    using completed_step_skipped [OF row st d,
        of "scriptStage exEnv ''j1'' exSettings 0" "\<lparr> ctx_script = None, ctx_scenes = None \<rparr>" exEnv]
    by auto
qed

section \<open>Progress within a run and across a resume (C8)\<close>

lemma processJob_try_first:
  assumes t: "processJob_try env jobId t0 w = (r, w')"
    and d: "distinct (map step_id (jobSteps w))"
    and ex: "jobs w jobId \<noteq> None"
  shows "\<exists>evs. trace w' = trace w @ ProgressWrite 0 # evs"
proof -
  obtain job where Some: "jobs w jobId = Some job" using ex by auto
  define st where "st = settings job"
  define eta where "eta = STEP_TIME_ESTIMATES T_script
                + (case visual_scenesPerMinute st of
                                   None \<Rightarrow> 6
                                 | Some n \<Rightarrow> if n = 0 then 6 else int n) * STEP_TIME_ESTIMATES T_assets_visual
                + (case visual_scenesPerMinute st of
                                   None \<Rightarrow> 6
                                 | Some n \<Rightarrow> if n = 0 then 6 else int n) * STEP_TIME_ESTIMATES T_assets_audio
                + (case visual_scenesPerMinute st of
                                   None \<Rightarrow> 6
                                 | Some n \<Rightarrow> if n = 0 then 6 else int n) * STEP_TIME_ESTIMATES T_video div 5
                + STEP_TIME_ESTIMATES T_caption"
  define w2 where "w2 = updateLastProgress jobId (updateJob jobId (noPatch\<lparr>
                     p_status := Some J_running,
                     p_progressPercent := Some 0,
                     p_etaSeconds := Some (Some eta) \<rparr>) w)"
  define fin where "fin = (\<lambda>(ctx5 :: JobContext) w3.
                  (Inr () :: string + unit, updateJob jobId (noPatch\<lparr>
                             p_status := Some J_completed,
                             p_progressPercent := Some 100,
                             p_etaSeconds := Some (Some 0) \<rparr>) w3))"
  have body: "andThen (runStages env jobId st t0 pipelineOrder
                        \<lparr> ctx_script = None, ctx_scenes = None \<rparr>) fin w2 = (r, w')"
    using t Some
    by (simp add: processJob_try_stages getJob_def Let_def st_def eta_def w2_def fin_def)
  have tr2: "trace w2 = trace w @ [ProgressWrite 0]"
    using Some by (simp add: w2_def trace_updateJob progressEvent_def noPatch_def)
  have js2: "jobSteps w2 = jobSteps w" by (simp add: w2_def)
  have d2: "distinct (map step_id (jobSteps w2))" using d js2 by simp
  obtain r1 w1 where rs: "runStages env jobId st t0 pipelineOrder
                        \<lparr> ctx_script = None, ctx_scenes = None \<rparr> w2 = (r1, w1)" by fastforce
  have lo: "\<forall>ty \<in> set pipelineOrder. 10 \<le> stageLo ty" using stage_bounds(3) by simp
  from runStages_piped [OF rs d2 pipelineOrder_sorted lo]
  obtain e1 where e1: "trace w1 = trace w2 @ e1" by (auto simp: piped_def)
  have "\<exists>e2. trace w' = trace w1 @ e2"
  proof (cases r1)
    case (Inl e)
    with body rs have "w' = w1" by (simp add: andThen_def)
    then show ?thesis by simp
  next
    case (Inr c)
    with body rs have "w' = updateJob jobId (noPatch\<lparr>
                             p_status := Some J_completed,
                             p_progressPercent := Some 100,
                             p_etaSeconds := Some (Some 0) \<rparr>) w1"
      by (simp add: andThen_def fin_def)
    then show ?thesis by (simp add: trace_updateJob)
  qed
  then obtain e2 where e2: "trace w' = trace w1 @ e2" by blast
  show ?thesis using tr2 e1 e2 by simp
qed

lemma processJob_first_write:
  assumes d: "distinct (map step_id (jobSteps w))"
    and job: "jobs w jobId = Some j" and free: "leaseFree (clock w) j"
  shows "\<exists>rest. newEvents w (processJob env jobId w) = ProgressWrite 0 # rest"
proof -
  define w0 where "w0 = snd (acquireJobLock jobId (workerId env) LEASE_SECONDS w)"
  have acq: "acquireJobLock jobId (workerId env) LEASE_SECONDS w = (True, w0)"
    using job free by (simp add: w0_def acquireJobLock_def)
  note fr = acquireJobLock_frame [OF acq]
  obtain r w1 where t: "processJob_try env jobId (clock w0) w0 = (r, w1)" by fastforce
  have d0: "distinct (map step_id (jobSteps w0))" using d fr by simp
  have ex0: "jobs w0 jobId \<noteq> None" using fr job by simp
  obtain evs where evs: "trace w1 = trace w @ ProgressWrite 0 # evs"
    using processJob_try_first [OF t d0 ex0] fr by auto
  have "trace (processJob env jobId w) = trace w1"
    using acq t by (cases r) (simp_all add: processJob_def Let_def trace_updateJob
        progressEvent_def noPatch_def)
  then show ?thesis using evs by simp
qed

text \<open>
  C8, as amended.  Within one run of \<^verbatim>\<open>processJob\<close> the values written to
  \<^verbatim>\<open>progressPercent\<close> lie between 0 and 100 and never decrease; and every run that takes
  the lease begins by writing 0, whatever the job's progress was.
\<close>

theorem progress_within_run:
  assumes "distinct (map step_id (jobSteps w))"
  shows "sorted (progressWrites (newEvents w (processJob env jobId w)))
       \<and> (\<forall>n \<in> set (progressWrites (newEvents w (processJob env jobId w))). 0 \<le> n \<and> n \<le> 100)
       \<and> (\<forall>j. jobs w jobId = Some j \<and> leaseFree (clock w) j \<longrightarrow>
             (\<exists>rest. newEvents w (processJob env jobId w) = ProgressWrite 0 # rest))"
proof -
  obtain evs err where e: "trace (processJob env jobId w) = trace w @ evs"
    "okEvents {t. pending w jobId t} 0 100 err evs"
    using processJob_summary [OF assms] by blast
  have n: "newEvents w (processJob env jobId w) = evs" using e(1) by simp
  have "sorted (progressWrites evs) \<and> (\<forall>n \<in> set (progressWrites evs). 0 \<le> n \<and> n \<le> 100)"
    using e(2) by (simp add: okEvents_def)
  then show ?thesis
    using processJob_first_write [OF assms, of jobId _ env] unfolding n [symmetric] by blast
qed

theorem progress_within_run_witness:
  "sorted (progressWrites (newEvents exFresh (processJob exEnv ''j1'' exFresh)))
   \<and> (\<exists>rest. newEvents exFresh (processJob exEnv ''j1'' exFresh) = ProgressWrite 0 # rest)"
proof -
  have d: "distinct (map step_id (jobSteps exFresh))"
    by (simp add: exFresh_def exWorld_def)
  have j: "jobs exFresh ''j1'' = Some exJob \<and> leaseFree (clock exFresh) exJob"
    by (simp add: exFresh_def exWorld_def exJob_def leaseFree_def)
  show ?thesis using progress_within_run [OF d, of exEnv "''j1''"] j by blast
qed

text \<open>The claim as stated fails across a resume: the job that crashed at 55 percent is
  written back to 0 by the run that resumes it.\<close>

theorem progress_reset_on_resume_counterexample:
  "\<not> sorted (progressPercent exCrashedJob
              # progressWrites (newEvents exCrashed (processJob exEnv ''j1'' exCrashed)))"
proof -
  have d: "distinct (map step_id (jobSteps exCrashed))"
    by (simp add: exCrashed_def exWorld_def)
  have j: "jobs exCrashed ''j1'' = Some exCrashedJob"
    by (simp add: exCrashed_def exWorld_def)
  have f: "leaseFree (clock exCrashed) exCrashedJob"
    by (simp add: exCrashedJob_def exJob_def leaseFree_def)
  obtain rest where "newEvents exCrashed (processJob exEnv ''j1'' exCrashed) = ProgressWrite 0 # rest"
    using processJob_first_write [OF d j f] by blast
  moreover have "progressPercent exCrashedJob = 55" by (simp add: exCrashedJob_def)
  ultimately show ?thesis by simp
qed

section \<open>Cancellation (C4)\<close>







section \<open>Jobs without step rows (C10)\<close>

lemma runStep_no_row:
  "stepRow w jobId ty = None \<Longrightarrow> runStep jobId ty fn ctx w = (Inr ctx, w)"
  by (simp add: runStep_skip pending_def)

lemma getJobSteps_trace [simp]: "getJobSteps jobId (w\<lparr> trace := t \<rparr>) = getJobSteps jobId w"
  by (simp add: getJobSteps_def)

lemma getJobSteps_jobs [simp]: "getJobSteps jobId (w\<lparr> jobs := t \<rparr>) = getJobSteps jobId w"
  by (simp add: getJobSteps_def)

lemma processJob_no_rows:
  assumes job: "jobs w jobId = Some j" and rows: "getJobSteps jobId w = []"
    and c: "\<not> cancelRequested j" and free: "leaseFree (clock w) j"
  shows "trace (processJob env jobId w)
           = trace w @ [ProgressWrite 0, Poll False, Poll False, Poll False, Poll False, Poll False,
                        ProgressWrite 100]
         \<and> jobSteps (processJob env jobId w) = jobSteps w
         \<and> map_option status (jobs (processJob env jobId w) jobId) = Some J_completed
         \<and> map_option progressPercent (jobs (processJob env jobId w) jobId) = Some 100"
  using assms
  by (simp add: processJob_def acquireJobLock_def processJob_try_def getJob_def updateJob_def
      applyPatch_def noPatch_def orElse_def orKeep_def updateLastProgress_def runStep_def
      andThen_def throwIfCancelled_def isCancelled_def releaseJobLock_def Let_def)

text \<open>
  C10.  \<^verbatim>\<open>runStep\<close> on a job that has no step row of the given type returns normally,
  with the context and the database as they were: the stage function is not invoked, no
  row is created, nothing is thrown.  Hence a job that has no step rows at all (whose
  lease is free and which is not cancelled) goes through \<^verbatim>\<open>processJob\<close> with five polls
  and two progress writes, no stage function invoked and no external call made, and ends
  \<^verbatim>\<open>completed\<close> at 100 percent.
\<close>

theorem missing_step_row_skipped:
  "(stepRow w jobId ty = None \<longrightarrow> runStep jobId ty fn ctx w = (Inr ctx, w))
   \<and> (\<forall>j. jobs w jobId = Some j \<and> getJobSteps jobId w = []
           \<and> \<not> cancelRequested j \<and> leaseFree (clock w) j \<longrightarrow>
          newEvents w (processJob env jobId w)
            = [ProgressWrite 0, Poll False, Poll False, Poll False, Poll False, Poll False,
               ProgressWrite 100]
          \<and> jobSteps (processJob env jobId w) = jobSteps w
          \<and> map_option status (jobs (processJob env jobId w) jobId) = Some J_completed
          \<and> map_option progressPercent (jobs (processJob env jobId w) jobId) = Some 100)"
  using runStep_no_row [of w jobId ty fn ctx] processJob_no_rows [of w jobId _ env]
  by (auto simp: newEvents_def)

theorem missing_step_row_skipped_witness:
  "runStep ''j1'' T_video (videoStage exEnv ''j1'' exSettings)
       \<lparr> ctx_script = None, ctx_scenes = None \<rparr> exWorld
     = (Inr \<lparr> ctx_script = None, ctx_scenes = None \<rparr>, exWorld)
   \<and> newEvents exWorld (processJob exEnv ''j1'' exWorld)
       = [ProgressWrite 0, Poll False, Poll False, Poll False, Poll False, Poll False,
          ProgressWrite 100]
   \<and> jobSteps (processJob exEnv ''j1'' exWorld) = []
   \<and> map_option status (jobs (processJob exEnv ''j1'' exWorld) ''j1'') = Some J_completed
   \<and> map_option progressPercent (jobs (processJob exEnv ''j1'' exWorld) ''j1'') = Some 100"
proof -
  have r: "stepRow exWorld ''j1'' T_video = None"
    by (simp add: stepRow_def getJobSteps_def exWorld_def)
  have j: "jobs exWorld ''j1'' = Some exJob \<and> getJobSteps ''j1'' exWorld = []
           \<and> \<not> cancelRequested exJob \<and> leaseFree (clock exWorld) exJob"
    by (simp add: getJobSteps_def exWorld_def exJob_def leaseFree_def)
  have s: "jobSteps exWorld = []" by (simp add: exWorld_def)
  note inst = missing_step_row_skipped [of exWorld "''j1''" T_video
      "videoStage exEnv ''j1'' exSettings" "\<lparr> ctx_script = None, ctx_scenes = None \<rparr>" exEnv]
  show ?thesis using inst r j s by auto
qed

section \<open>Scene timings after the audio stage (C7)\<close>

text \<open>\<open>elapsed k scs\<close> is the playing time of the first \<open>k\<close> scenes, as the renderer adds it
  up; \<open>timedUpTo i t scs\<close> is the invariant of the timing loop before iteration \<open>i\<close> with
  running total \<open>t\<close>: every scene before \<open>i\<close> starts where its predecessors end and lasts
  its own duration.  Durations are rationals here; the source adds the same doubles in
  the same order in the loop and in the renderer.\<close>

definition elapsed :: "nat \<Rightarrow> Scene list \<Rightarrow> rat" where
  "elapsed k scs = sum_list (map durationOr5 (take k scs))"

definition timedUpTo :: "nat \<Rightarrow> rat \<Rightarrow> Scene list \<Rightarrow> bool" where
  "timedUpTo i t scs =
     (t = elapsed i scs \<and>
      (\<forall>k<i. startTime (scs ! k) = elapsed k scs \<and> endTime (scs ! k) = elapsed (Suc k) scs))"






lemma durationOr5_times [simp]:
  "durationOr5 (s\<lparr> startTime := a, endTime := b \<rparr>) = durationOr5 s"
  by (simp add: durationOr5_def)



lemma timedUpTo_0 [simp]: "timedUpTo 0 0 scs"
  by (simp add: timedUpTo_def elapsed_def)






lemma showNat_small [simp]: "showNat 0 = ''0''" "showNat (Suc 0) = ''1''"
  by code_simp+





end
